theory Spec2Isabelle
  imports Main
begin

section \<open>Text buffers of the editor\<close>

text \<open>
  The panels of \<^verbatim>\<open>plugin/core/panels.py\<close> are views of the host editor. A view's
  text is a \<open>string\<close>; a point is an offset into it. Only line feeds and carriage
  returns matter for what follows, and neither occurs inside a multi-byte character, so
  counting lines on bytes and on code points agrees.
\<close>

abbreviation LF :: char where "LF \<equiv> CHR 0x0A"
abbreviation CR :: char where "CR \<equiv> CHR 0x0D"

text \<open>A region is a pair of points \<open>(a, b)\<close>; it covers the text from the smaller to the larger.\<close>

type_synonym region = "nat \<times> nat"

definition region_begin :: "region \<Rightarrow> nat" where
  "region_begin r = min (fst r) (snd r)"

definition region_end :: "region \<Rightarrow> nat" where
  "region_end r = max (fst r) (snd r)"

text \<open>Python's \<^verbatim>\<open>str.replace(old, new)\<close> for a non-empty \<open>old\<close>: leftmost occurrences, not overlapping.\<close>

function str_replace :: "string \<Rightarrow> string \<Rightarrow> string \<Rightarrow> string" where
  "str_replace old new [] = []"
| "str_replace old new (c # cs) =
     (if old \<noteq> [] \<and> take (length old) (c # cs) = old
      then new @ str_replace old new (drop (length old) (c # cs))
      else c # str_replace old new cs)"
  by pat_completeness auto
termination
  by (relation "measure (\<lambda>(old, new, s). length s)") (auto simp: Suc_le_eq)

text \<open>The values that \<^verbatim>\<open>OUTPUT_PANEL_SETTINGS\<close> and the panel functions store in a view's settings.\<close>

datatype setting = SBool bool | SInt int | SStr string | SList "string list"

record view =
  buffer :: string
  read_only :: bool
  settings :: "string \<rightharpoonup> setting"

text \<open>\<^verbatim>\<open>view.size()\<close>\<close>

definition view_size :: "view \<Rightarrow> nat" where
  "view_size v = length (buffer v)"

text \<open>\<^verbatim>\<open>view.set_read_only(flag)\<close>\<close>

definition set_read_only :: "bool \<Rightarrow> view \<Rightarrow> view" where
  "set_read_only flag v = v\<lparr>read_only := flag\<rparr>"

text \<open>\<^verbatim>\<open>view.insert(edit, point, text)\<close>: a read-only view rejects the edit.\<close>

definition view_insert :: "nat \<Rightarrow> string \<Rightarrow> view \<Rightarrow> view" where
  "view_insert point txt v =
     (if read_only v then v
      else v\<lparr>buffer := take point (buffer v) @ txt @ drop point (buffer v)\<rparr>)"

text \<open>\<^verbatim>\<open>view.erase(edit, region)\<close>: a read-only view rejects the edit.\<close>

definition view_erase :: "region \<Rightarrow> view \<Rightarrow> view" where
  "view_erase r v =
     (if read_only v then v
      else v\<lparr>buffer := take (region_begin r) (buffer v) @ drop (region_end r) (buffer v)\<rparr>)"

text \<open>
  \<^verbatim>\<open>view.rowcol(point)\<close>: the zero-based row is the number of line feeds before the
  point, the column the distance to the start of that line.
\<close>

definition line_begin :: "string \<Rightarrow> nat \<Rightarrow> nat" where
  "line_begin b point =
     (let pre = take point b in length pre - length (takeWhile (\<lambda>c. c \<noteq> LF) (rev pre)))"

definition rowcol :: "view \<Rightarrow> nat \<Rightarrow> int \<times> int" where
  "rowcol v point =
     (let p = min point (view_size v)
      in (int (count_list (take p (buffer v)) LF), int (p - line_begin (buffer v) p)))"

text \<open>
  \<^verbatim>\<open>view.full_line(point)\<close>: the line that holds the point, with its trailing line
  feed when it has one.
\<close>

definition line_end :: "string \<Rightarrow> nat \<Rightarrow> nat" where
  "line_end b point =
     (let rest = drop point b; n = length (takeWhile (\<lambda>c. c \<noteq> LF) rest)
      in if n < length rest then point + n + 1 else length b)"

definition full_line :: "view \<Rightarrow> nat \<Rightarrow> region" where
  "full_line v point = (line_begin (buffer v) point, line_end (buffer v) point)"

section \<open>The server panel command\<close>

definition SERVER_PANEL_MAX_LINES :: int where
  "SERVER_PANEL_MAX_LINES = 500"

definition SERVER_PANEL_DEBOUNCE_TIME_MS :: nat where
  "SERVER_PANEL_DEBOUNCE_TIME_MS = 80"

datatype error = KeyError nat | NameError string | AttributeError string

text \<open>
  The class attribute \<^verbatim>\<open>LspUpdateServerPanelCommand.to_be_processed\<close>: one dictionary for
  the whole process, from window id to the pending \<open>(prefix, message)\<close> pairs.
\<close>

type_synonym pending = "nat \<rightharpoonup> (string \<times> string) list"

text \<open>The class body binds it once, to the empty dictionary: \<^verbatim>\<open>to_be_processed = {}\<close>.\<close>

definition to_be_processed_initial :: pending where
  "to_be_processed_initial = Map.empty"

text \<open>
  The locals \<^verbatim>\<open>total_lines\<close>, \<^verbatim>\<open>point\<close> and \<^verbatim>\<open>regions\<close> of \<^verbatim>\<open>run\<close> are bound
  inside the body of the first loop only.
\<close>

record locals =
  total_lines :: int
  point :: nat
  regions :: "region list"

text \<open>\<^verbatim>\<open>"{}: {}\n".format(prefix, message)\<close>\<close>

definition format_line :: "string \<Rightarrow> string \<Rightarrow> string" where
  "format_line prefix message = prefix @ '': '' @ message @ [LF]"

text \<open>The first loop of \<^verbatim>\<open>run\<close>: one iteration per queued pair.\<close>

fun insert_loop :: "(string \<times> string) list \<Rightarrow> view \<times> locals option \<Rightarrow> view \<times> locals option" where
  "insert_loop [] st = st"
| "insert_loop ((prefix, message) # rest) (v, l) =
     (let message' = str_replace [CR, LF] [LF] message;
          v' = view_insert (view_size v) (format_line prefix message') v;
          total = fst (rowcol v' (view_size v'))
      in insert_loop rest (v', Some \<lparr>total_lines = total, point = 0, regions = []\<rparr>))"

text \<open>The second loop: collect \<open>n\<close> regions, each a whole line, walking down from \<open>point\<close>.\<close>

fun collect_loop :: "nat \<Rightarrow> view \<Rightarrow> locals \<Rightarrow> locals" where
  "collect_loop 0 v l = l"
| "collect_loop (Suc n) v l =
     (let region = full_line v (point l)
      in collect_loop n v (l\<lparr>regions := regions l @ [region], point := snd region\<rparr>))"

text \<open>The third loop: erase the collected regions, last one first.\<close>

definition erase_loop :: "region list \<Rightarrow> view \<Rightarrow> view" where
  "erase_loop rs v = fold view_erase (rev rs) v"

text \<open>
  \<^verbatim>\<open>LspUpdateServerPanelCommand.run(self, edit, window_id)\<close> on \<^verbatim>\<open>self.view = v\<close>, with
  the class dictionary passed in and returned. The context manager \<^verbatim>\<open>mutable\<close> makes the
  view writable on entry and read-only again on a normal exit. Reading \<^verbatim>\<open>total_lines\<close>
  while it is unbound raises \<^verbatim>\<open>UnboundLocalError\<close>, a subclass of \<^verbatim>\<open>NameError\<close>.
\<close>

definition LspUpdateServerPanelCommand_run :: "view \<Rightarrow> nat \<Rightarrow> pending \<Rightarrow> error + (view \<times> pending)" where
  "LspUpdateServerPanelCommand_run v window_id tbp =
     (case tbp window_id of
        None \<Rightarrow> Inl (KeyError window_id)
      | Some to_process \<Rightarrow>
          (let tbp' = tbp(window_id := None);
               v0 = set_read_only False v
           in case insert_loop to_process (v0, None) of
                (v1, None) \<Rightarrow> Inl (NameError ''total_lines'')
              | (v1, Some l) \<Rightarrow>
                  (let n = nat (max 0 (total_lines l - SERVER_PANEL_MAX_LINES));
                       l' = collect_loop n v1 l;
                       v2 = erase_loop (regions l') v1
                   in Inr (set_read_only True v2, tbp'))))"

section \<open>Windows, panels and timers\<close>

text \<open>
  The editor hands out windows and views as numbered handles. A handle is valid while the
  editor still has the object; the view handle \<open>0\<close> is the null view, which Python
  treats as false. The state below holds what the editor knows (\<open>windows\<close>, \<open>views\<close>,
  \<open>next_view_id\<close>), the callbacks waiting on a timer, and the class dictionary
  \<open>to_be_processed\<close>.
\<close>

record job =
  job_panel :: "nat option"
  job_window_id :: nat
  job_previous_length :: nat

record env =
  windows :: "nat \<rightharpoonup> (string \<rightharpoonup> nat)"
  views :: "nat \<rightharpoonup> view"
  next_view_id :: nat
  timeouts :: "(nat \<times> job) list"
  to_be_processed :: pending

text \<open>Truth value of an \<^verbatim>\<open>Optional[sublime.View]\<close>.\<close>

fun truthy :: "nat option \<Rightarrow> bool" where
  "truthy None = False"
| "truthy (Some vid) = (vid \<noteq> 0)"

definition window_is_valid :: "env \<Rightarrow> nat \<Rightarrow> bool" where
  "window_is_valid s window = (windows s window \<noteq> None)"

definition view_is_valid :: "env \<Rightarrow> nat \<Rightarrow> bool" where
  "view_is_valid s vid = (views s vid \<noteq> None)"

text \<open>A method called on an invalid view does nothing.\<close>

definition update_view :: "nat \<Rightarrow> (view \<Rightarrow> view) \<Rightarrow> env \<Rightarrow> env" where
  "update_view vid f s =
     (case views s vid of None \<Rightarrow> s | Some v \<Rightarrow> s\<lparr>views := (views s)(vid \<mapsto> f v)\<rparr>)"

text \<open>\<^verbatim>\<open>view.settings().set(key, value)\<close>\<close>

definition settings_set :: "nat \<Rightarrow> string \<Rightarrow> setting \<Rightarrow> env \<Rightarrow> env" where
  "settings_set vid key val = update_view vid (\<lambda>v. v\<lparr>settings := (settings v)(key \<mapsto> val)\<rparr>)"

text \<open>\<^verbatim>\<open>view.assign_syntax(syntax)\<close>\<close>

definition assign_syntax :: "nat \<Rightarrow> string \<Rightarrow> env \<Rightarrow> env" where
  "assign_syntax vid syntax = settings_set vid ''syntax'' (SStr syntax)"

text \<open>\<^verbatim>\<open>window.find_output_panel(name)\<close>\<close>

definition window_find_output_panel :: "env \<Rightarrow> nat \<Rightarrow> string \<Rightarrow> nat option" where
  "window_find_output_panel s window name =
     (case windows s window of None \<Rightarrow> None | Some ps \<Rightarrow> ps name)"

text \<open>
  \<^verbatim>\<open>window.create_output_panel(name)\<close>: the view of the named panel, created empty when
  the window has none of that name; the null view when the window is gone.
\<close>

definition window_create_output_panel :: "nat \<Rightarrow> string \<Rightarrow> env \<Rightarrow> nat \<times> env" where
  "window_create_output_panel window name s =
     (case windows s window of
        None \<Rightarrow> (0, s)
      | Some ps \<Rightarrow>
          (case ps name of
             Some vid \<Rightarrow> (vid, s)
           | None \<Rightarrow>
               (let vid = next_view_id s
                in (vid, s\<lparr>windows := (windows s)(window \<mapsto> ps(name \<mapsto> vid)),
                           views := (views s)(vid \<mapsto> \<lparr>buffer = [], read_only = False,
                                                       settings = Map.empty\<rparr>),
                           next_view_id := Suc vid\<rparr>))))"

text \<open>\<^verbatim>\<open>window.destroy_output_panel(name)\<close>: the panel is removed and its view becomes invalid.\<close>

definition window_destroy_output_panel :: "nat \<Rightarrow> string \<Rightarrow> env \<Rightarrow> env" where
  "window_destroy_output_panel window name s =
     (case windows s window of
        None \<Rightarrow> s
      | Some ps \<Rightarrow>
          (case ps name of
             None \<Rightarrow> s
           | Some vid \<Rightarrow> s\<lparr>windows := (windows s)(window \<mapsto> ps(name := None)),
                              views := (views s)(vid := None)\<rparr>))"

subsection \<open>Creating and destroying panels\<close>

definition OUTPUT_PANEL_SETTINGS :: "(string \<times> setting) list" where
  "OUTPUT_PANEL_SETTINGS =
     [(''auto_indent'', SBool False),
      (''draw_indent_guides'', SBool False),
      (''draw_white_space'', SStr ''None''),
      (''fold_buttons'', SBool True),
      (''gutter'', SBool True),
      (''is_widget'', SBool True),
      (''line_numbers'', SBool False),
      (''lsp_active'', SBool True),
      (''margin'', SInt 3),
      (''match_brackets'', SBool False),
      (''rulers'', SList []),
      (''scroll_past_end'', SBool False),
      (''tab_size'', SInt 4),
      (''translate_tabs_to_spaces'', SBool False),
      (''word_wrap'', SBool False)]"

text \<open>
  The string attributes of class \<^verbatim>\<open>PanelName\<close>, and the keys of its \<^verbatim>\<open>__dict__\<close>, which
  also holds the attributes every class has.
\<close>

definition PanelName :: "(string \<times> string) list" where
  "PanelName =
     [(''Diagnostics'', ''diagnostics''),
      (''References'', ''references''),
      (''LanguageServers'', ''language servers'')]"

definition PanelName_dict_keys :: "string list" where
  "PanelName_dict_keys =
     ''__module__'' # map fst PanelName @ [''__dict__'', ''__weakref__'', ''__doc__'']"

definition LanguageServers :: string where
  "LanguageServers = ''language servers''"

definition create_output_panel :: "nat \<Rightarrow> string \<Rightarrow> env \<Rightarrow> nat option \<times> env" where
  "create_output_panel window name s =
     (let (panel, s1) = window_create_output_panel window name s
      in (Some panel, fold (\<lambda>(key, val). settings_set panel key val) OUTPUT_PANEL_SETTINGS s1))"

definition destroy_output_panels :: "nat \<Rightarrow> env \<Rightarrow> env" where
  "destroy_output_panels window s =
     fold (\<lambda>field s.
             case map_of PanelName field of
               None \<Rightarrow> s
             | Some panel_name \<Rightarrow>
                 (let panel = window_find_output_panel s window panel_name
                  in if truthy panel \<and> view_is_valid s (the panel)
                     then window_destroy_output_panel window panel_name
                            (settings_set (the panel) ''syntax''
                               (SStr ''Packages/Text/Plain text.tmLanguage'') s)
                     else s))
          (filter (\<lambda>a. take 2 a \<noteq> ''__'') PanelName_dict_keys) s"

definition create_panel ::
  "nat \<Rightarrow> string \<Rightarrow> string \<Rightarrow> string \<Rightarrow> string \<Rightarrow> env \<Rightarrow> nat option \<times> env" where
  "create_panel window name result_file_regex result_line_regex syntax s =
     (let (panel, s1) = create_output_panel window name s
      in if \<not> truthy panel then (None, s1)
         else
           (let vid = the panel;
                s2 = (if result_file_regex \<noteq> []
                      then settings_set vid ''result_file_regex'' (SStr result_file_regex) s1
                      else s1);
                s3 = (if result_line_regex \<noteq> []
                      then settings_set vid ''result_line_regex'' (SStr result_line_regex) s2
                      else s2);
                s4 = assign_syntax vid syntax s3;
                (vid', s5) = window_create_output_panel window name s4
            in (Some vid', update_view vid' (set_read_only True) s5)))"

definition ensure_panel ::
  "nat \<Rightarrow> string \<Rightarrow> string \<Rightarrow> string \<Rightarrow> string \<Rightarrow> env \<Rightarrow> nat option \<times> env" where
  "ensure_panel window name result_file_regex result_line_regex syntax s =
     (let found = window_find_output_panel s window name
      in if truthy found then (found, s)
         else create_panel window name result_file_regex result_line_regex syntax s)"

definition ensure_server_panel :: "nat \<Rightarrow> env \<Rightarrow> nat option \<times> env" where
  "ensure_server_panel window =
     ensure_panel window LanguageServers [] [] ''Packages/LSP/Syntaxes/ServerLog.sublime-syntax''"

subsection \<open>Queueing a message and scheduling the flush\<close>

text \<open>
  Modelled from the spec: \<^verbatim>\<open>debounced\<close> of \<^verbatim>\<open>plugin/core/types.py\<close> is not among
  the sources. The spec names the pattern a timer with a condition: the call only puts the
  callback on the editor's timer, and when the interval has passed the callback runs if
  its condition holds then. The two closures that \<^verbatim>\<open>update_server_panel\<close> passes are
  represented by the variables they capture, a \<open>job\<close>.
\<close>

definition debounced :: "job \<Rightarrow> nat \<Rightarrow> env \<Rightarrow> env" where
  "debounced j timeout_ms s = s\<lparr>timeouts := timeouts s @ [(timeout_ms, j)]\<rparr>"

text \<open>The closure \<^verbatim>\<open>condition\<close> of \<^verbatim>\<open>update_server_panel\<close>, evaluated in a later state.\<close>

definition condition :: "job \<Rightarrow> env \<Rightarrow> bool" where
  "condition j s =
     (if \<not> truthy (job_panel j) then False
      else if \<not> view_is_valid s (the (job_panel j)) then False
      else case to_be_processed s (job_window_id j) of
             None \<Rightarrow> False
           | Some to_process \<Rightarrow>
               (let current_length = length to_process
                in if current_length \<ge> 10 then True
                   else current_length = job_previous_length j))"

text \<open>
  \<^verbatim>\<open>panel.run_command("lsp_update_server_panel", {"window_id": window_id})\<close>: the
  editor runs the command on the view behind the handle; on an invalid view nothing runs.
\<close>

definition run_command :: "nat \<Rightarrow> nat \<Rightarrow> env \<Rightarrow> error + env" where
  "run_command vid window_id s =
     (case views s vid of
        None \<Rightarrow> Inr s
      | Some v \<Rightarrow>
          (case LspUpdateServerPanelCommand_run v window_id (to_be_processed s) of
             Inl e \<Rightarrow> Inl e
           | Inr (v', tbp') \<Rightarrow> Inr (s\<lparr>views := (views s)(vid \<mapsto> v'), to_be_processed := tbp'\<rparr>)))"

text \<open>The lambda passed to \<^verbatim>\<open>debounced\<close>.\<close>

definition flush :: "job \<Rightarrow> env \<Rightarrow> error + env" where
  "flush j s =
     (if truthy (job_panel j) then run_command (the (job_panel j)) (job_window_id j) s
      else Inr s)"

text \<open>What the timer does with a scheduled job once its interval has passed.\<close>

definition timeout_expires :: "job \<Rightarrow> env \<Rightarrow> error + env" where
  "timeout_expires j s = (if condition j s then flush j s else Inr s)"

definition update_server_panel :: "nat \<Rightarrow> string \<Rightarrow> string \<Rightarrow> env \<Rightarrow> env" where
  "update_server_panel window prefix message s =
     (if \<not> window_is_valid s window then s
      else
        (let window_id = window;
             (panel, s1) = ensure_server_panel window s
         in if \<not> truthy panel then s1
            else
              (let queue = (case to_be_processed s1 window_id of None \<Rightarrow> [] | Some q \<Rightarrow> q)
                             @ [(prefix, message)];
                   s2 = s1\<lparr>to_be_processed := (to_be_processed s1)(window_id \<mapsto> queue)\<rparr>;
                   previous_length = length queue
               in debounced \<lparr>job_panel = panel, job_window_id = window_id,
                               job_previous_length = previous_length\<rparr>
                    SERVER_PANEL_DEBOUNCE_TIME_MS s2)))"

section \<open>The package module\<close>

text \<open>
  \<^verbatim>\<open>plugin/__init__.py\<close> is a list of top-level statements: imports from modules of
  the package, one function definition and the assignment of \<^verbatim>\<open>__all__\<close>. The two
  imports from \<^verbatim>\<open>.core.url\<close> are comments, not statements. An import names the module
  by its path below the package.
\<close>

datatype stmt =
    ImportFrom "string list" string
  | FunctionDef string
  | AssignAll "string list"

datatype object =
    Imported "string list" string
  | Submodule string
  | Function string
  | StrList "string list"

text \<open>
  The function that the module defines under the name \<^verbatim>\<open>filename_to_uri\<close>: its body is a
  bare \<^verbatim>\<open>return\<close>, so the result is Python's \<^verbatim>\<open>None\<close>, here \<open>None\<close>; a string result
  would be \<open>Some\<close> of it.
\<close>

definition filename_to_uri :: "string \<Rightarrow> string option" where
  "filename_to_uri filename = None"

text \<open>\<^verbatim>\<open>__all__\<close>, the list that the module assigns.\<close>

definition module_all :: "string list" where
  "module_all =
     [''__version__'',
      ''AbstractPlugin'',
      ''ClientConfig'',
      ''css'',
      ''filename_to_uri'',
      ''LanguageConfig'',
      ''Notification'',
      ''register_plugin'',
      ''Request'',
      ''Response'',
      ''Session'',
      ''SessionBufferProtocol'',
      ''unregister_plugin'',
      ''uri_to_filename'',
      ''WorkspaceFolder'']"

definition module_body :: "stmt list" where
  "module_body =
     [ImportFrom [''core'', ''css''] ''css'',
      ImportFrom [''core'', ''protocol''] ''Notification'',
      ImportFrom [''core'', ''protocol''] ''Request'',
      ImportFrom [''core'', ''protocol''] ''Response'',
      ImportFrom [''core'', ''sessions''] ''AbstractPlugin'',
      ImportFrom [''core'', ''sessions''] ''register_plugin'',
      ImportFrom [''core'', ''sessions''] ''Session'',
      ImportFrom [''core'', ''sessions''] ''SessionBufferProtocol'',
      ImportFrom [''core'', ''sessions''] ''unregister_plugin'',
      ImportFrom [''core'', ''types''] ''ClientConfig'',
      ImportFrom [''core'', ''types''] ''LanguageConfig'',
      ImportFrom [''core'', ''types''] ''WorkspaceFolder'',
      ImportFrom [''core'', ''version''] ''__version__'',
      FunctionDef ''filename_to_uri'',
      AssignAll module_all]"

text \<open>
  Executing a statement binds names in the module's namespace. An import binds the
  imported name and, as importing a submodule does, the first component of the path. The
  imported modules other than \<^verbatim>\<open>core/url.py\<close> and \<^verbatim>\<open>core/panels.py\<close> are not among the
  sources; each import is taken to succeed.
\<close>

fun exec_stmt :: "stmt \<Rightarrow> (string \<rightharpoonup> object) \<Rightarrow> (string \<rightharpoonup> object)" where
  "exec_stmt (ImportFrom path name) ns =
     (case path of
        [] \<Rightarrow> ns(name \<mapsto> Imported path name)
      | pkg # _ \<Rightarrow> (ns(pkg \<mapsto> Submodule pkg))(name \<mapsto> Imported path name))"
| "exec_stmt (FunctionDef name) ns = ns(name \<mapsto> Function name)"
| "exec_stmt (AssignAll names) ns = ns(''__all__'' \<mapsto> StrList names)"

definition namespace :: "string \<rightharpoonup> object" where
  "namespace = fold exec_stmt module_body Map.empty"

text \<open>Attribute access \<^verbatim>\<open>plugin.name\<close> on the loaded module.\<close>

definition module_getattr :: "string \<Rightarrow> error + object" where
  "module_getattr name =
     (case namespace name of None \<Rightarrow> Inl (AttributeError name) | Some ob \<Rightarrow> Inr ob)"

text \<open>
  \<^verbatim>\<open>from plugin import *\<close>: every name of \<^verbatim>\<open>__all__\<close> is looked up on the module in
  turn, and the first one it lacks raises \<^verbatim>\<open>AttributeError\<close>. The package directory has
  no submodule besides \<^verbatim>\<open>core\<close> that the import could load for a missing name.
\<close>

fun import_names :: "string list \<Rightarrow> error + (string \<times> object) list" where
  "import_names [] = Inr []"
| "import_names (name # names) =
     (case module_getattr name of
        Inl e \<Rightarrow> Inl e
      | Inr ob \<Rightarrow>
          (case import_names names of
             Inl e \<Rightarrow> Inl e
           | Inr bound \<Rightarrow> Inr ((name, ob) # bound)))"

definition star_import :: "error + (string \<times> object) list" where
  "star_import =
     (case namespace ''__all__'' of
        Some (StrList names) \<Rightarrow> import_names names
      | _ \<Rightarrow> Inr [])"

section \<open>The Dispatcher\<close>

text \<open>
  Modelled from the spec: the Dispatcher (section 4.3) and the termination of a Session
  (section 4.4) have no source file among the sources. The state is the mapping from
  pending request id to the waiting caller, here the method it asked for; a resolution
  hands an outcome to the caller and is recorded in \<open>resolutions\<close>. \<open>written\<close> is what
  went to the Transport and \<open>diagnostics\<close> the ids of discarded responses.
\<close>

datatype outcome = Responded string | Timeout | Cancelled | SessionTerminated

datatype wire = RequestMsg nat string | CancelNotification nat

record dispatcher =
  alive :: bool
  next_id :: nat
  waiting :: "nat \<rightharpoonup> string"
  resolutions :: "(nat \<times> outcome) list"
  written :: "wire list"
  diagnostics :: "nat list"

definition new_dispatcher :: dispatcher where
  "new_dispatcher =
     \<lparr>alive = True, next_id = 0, waiting = Map.empty, resolutions = [], written = [],
      diagnostics = []\<rparr>"

text \<open>
  Modelled from the spec: \<open>send_request\<close> allocates a fresh id, records the pending
  continuation and writes through the Transport; a Session that has stopped or crashed
  accepts no send and does not touch the Transport.
\<close>

definition send_request :: "string \<Rightarrow> dispatcher \<Rightarrow> nat option \<times> dispatcher" where
  "send_request method d =
     (if \<not> alive d then (None, d)
      else
        (let i = next_id d
         in (Some i, d\<lparr>next_id := Suc i,
                        waiting := (waiting d)(i \<mapsto> method),
                        written := written d @ [RequestMsg i method]\<rparr>)))"

text \<open>
  Modelled from the spec: when the timeout of a request elapses first, the pending entry
  is removed and the caller receives \<open>Timeout\<close>; an id that is no longer pending is left
  alone.
\<close>

definition timeout_elapses :: "nat \<Rightarrow> dispatcher \<Rightarrow> dispatcher" where
  "timeout_elapses i d =
     (case waiting d i of
        None \<Rightarrow> d
      | Some method \<Rightarrow> d\<lparr>waiting := (waiting d)(i := None),
                         resolutions := resolutions d @ [(i, Timeout)]\<rparr>)"

text \<open>
  Modelled from the spec: \<open>cancel\<close> removes the pending entry if still outstanding, emits
  the cancellation notification and resolves the caller with \<open>Cancelled\<close>; with no
  pending entry it is a no-op.
\<close>

definition cancel :: "nat \<Rightarrow> dispatcher \<Rightarrow> dispatcher" where
  "cancel i d =
     (case waiting d i of
        None \<Rightarrow> d
      | Some method \<Rightarrow> d\<lparr>waiting := (waiting d)(i := None),
                         written := written d @ [CancelNotification i],
                         resolutions := resolutions d @ [(i, Cancelled)]\<rparr>)"

text \<open>
  Modelled from the spec: on receipt of a Response the id is looked up; if found it is
  resolved and removed, if not the Response is discarded with a diagnostic.
\<close>

definition receive_response :: "nat \<Rightarrow> string \<Rightarrow> dispatcher \<Rightarrow> dispatcher" where
  "receive_response i result d =
     (case waiting d i of
        None \<Rightarrow> d\<lparr>diagnostics := diagnostics d @ [i]\<rparr>
      | Some method \<Rightarrow> d\<lparr>waiting := (waiting d)(i := None),
                         resolutions := resolutions d @ [(i, Responded result)]\<rparr>)"

text \<open>
  Modelled from the spec: when the Session stops or crashes, all pending requests are
  resolved with \<open>SessionTerminated\<close>.
\<close>

definition terminate :: "dispatcher \<Rightarrow> dispatcher" where
  "terminate d =
     d\<lparr>alive := False,
       waiting := Map.empty,
       resolutions := resolutions d @
          map (\<lambda>i. (i, SessionTerminated)) (filter (\<lambda>i. waiting d i \<noteq> None) [0..<next_id d])\<rparr>"

text \<open>What can happen to a Dispatcher, and a run of such events from a new one.\<close>

datatype event =
    Send string
  | TimeoutElapses nat
  | Cancel nat
  | Response nat string
  | Terminate

fun step :: "event \<Rightarrow> dispatcher \<Rightarrow> dispatcher" where
  "step (Send method) d = snd (send_request method d)"
| "step (TimeoutElapses i) d = timeout_elapses i d"
| "step (Cancel i) d = cancel i d"
| "step (Response i result) d = receive_response i result d"
| "step Terminate d = terminate d"

definition run_events :: "event list \<Rightarrow> dispatcher" where
  "run_events es = fold step es new_dispatcher"

text \<open>How often an id has been resolved.\<close>

definition resolved_count :: "dispatcher \<Rightarrow> nat \<Rightarrow> nat" where
  "resolved_count d i = count_list (map fst (resolutions d)) i"

section \<open>Vocabulary of the properties\<close>

text \<open>The text that one queued pair adds to the panel.\<close>

definition entry_text :: "string \<times> string \<Rightarrow> string" where
  "entry_text pm = fst pm @ '': '' @ str_replace [CR, LF] [LF] (snd pm) @ [LF]"

text \<open>
  A message with its Windows line ends made plain: every carriage return that a line feed
  follows directly is left out, and nothing else changes.
\<close>

fun normalize_eol :: "string \<Rightarrow> string" where
  "normalize_eol [] = []"
| "normalize_eol (c # cs) =
     (if c = CR \<and> cs \<noteq> [] \<and> hd cs = LF then normalize_eol cs else c # normalize_eol cs)"

text \<open>A text without its first line: everything after the first line feed.\<close>

definition drop_first_line :: "string \<Rightarrow> string" where
  "drop_first_line b = tl (dropWhile (\<lambda>c. c \<noteq> LF) b)"

text \<open>Erasing a region from a text, and the regions of \<open>n\<close> successive lines from a point.\<close>

definition erase_text :: "region \<Rightarrow> string \<Rightarrow> string" where
  "erase_text r b = take (region_begin r) b @ drop (region_end r) b"

fun line_regions :: "nat \<Rightarrow> string \<Rightarrow> nat \<Rightarrow> region list" where
  "line_regions 0 b p = []"
| "line_regions (Suc n) b p = (line_begin b p, line_end b p) # line_regions n b (line_end b p)"

text \<open>The pending pairs of a window, none when the dictionary has no entry for it.\<close>

definition queue_of :: "env \<Rightarrow> nat \<Rightarrow> (string \<times> string) list" where
  "queue_of s window_id = (case to_be_processed s window_id of None \<Rightarrow> [] | Some q \<Rightarrow> q)"

text \<open>
  An id is settled when it is either pending and unresolved, or not pending and resolved
  at most once: exactly once when it has been handed out, never when it has not.
\<close>

definition settled :: "dispatcher \<Rightarrow> nat \<Rightarrow> bool" where
  "settled d i =
     (if i < next_id d
      then (waiting d i \<noteq> None \<and> resolved_count d i = 0) \<or>
           (waiting d i = None \<and> resolved_count d i = 1)
      else waiting d i = None \<and> resolved_count d i = 0)"

text \<open>
  A concrete editor state for the examples: window 2 has a language-servers panel, view 7,
  that holds one line; nothing is pending. \<open>demo_queued\<close> is that state after one message
  has been queued, and \<open>demo_job\<close> the job scheduled for it.
\<close>

definition demo_view :: view where
  "demo_view = \<lparr>buffer = ''ready'' @ [LF], read_only = True, settings = Map.empty\<rparr>"

definition demo_env :: env where
  "demo_env = \<lparr>windows = [2 \<mapsto> [''language servers'' \<mapsto> 7]],
                views = [7 \<mapsto> demo_view],
                next_view_id = 8,
                timeouts = [],
                to_be_processed = Map.empty\<rparr>"

definition demo_job :: job where
  "demo_job = \<lparr>job_panel = Some 7, job_window_id = 2, job_previous_length = 1\<rparr>"

definition demo_queued :: env where
  "demo_queued = demo_env\<lparr>to_be_processed := [2 \<mapsto> [(''server'', ''started'')]],
                          timeouts := [(80, demo_job)]\<rparr>"

text \<open>
  \<open>demo_queued2\<close> is \<open>demo_queued\<close> after a second message, one with a Windows line end,
  has been queued for the same window, and \<open>demo_job2\<close> the job scheduled for it.
\<close>

definition demo_job2 :: job where
  "demo_job2 = \<lparr>job_panel = Some 7, job_window_id = 2, job_previous_length = 2\<rparr>"

definition demo_queued2 :: env where
  "demo_queued2 =
     demo_env\<lparr>to_be_processed :=
                 [2 \<mapsto> [(''server'', ''started''), (''client'', ''one'' @ [CR, LF] @ ''two'')]],
              timeouts := [(80, demo_job), (80, demo_job2)]\<rparr>"

section \<open>Lines of a buffer\<close>

lemma line_begin_closed:
  "pre = [] \<or> last pre = LF \<Longrightarrow> line_begin (pre @ rest) (length pre) = length pre"
  by (cases pre rule: rev_cases) (auto simp: line_begin_def)

lemma line_end_split:
  "LF \<notin> set ln \<Longrightarrow> line_end (pre @ ln @ LF # rest) (length pre) = length pre + length ln + 1"
  by (simp add: line_end_def takeWhile_append Let_def takeWhile_eq_all_conv[THEN iffD2])

lemma drop_first_line_split:
  "LF \<notin> set ln \<Longrightarrow> drop_first_line (ln @ LF # rest) = rest"
  by (auto simp: drop_first_line_def dropWhile_append)

lemma split_at_LF:
  assumes "0 < count_list s LF"
  shows "\<exists>ln rest. s = ln @ LF # rest \<and> LF \<notin> set ln"
proof -
  have "LF \<in> set s" using assms count_list_0_iff[of s LF] by auto
  then show ?thesis by (meson split_list_first)
qed

lemma regions_collect_loop:
  "regions (collect_loop n v l) = regions l @ line_regions n (buffer v) (point l)"
  by (induction n arbitrary: l) (simp_all add: Let_def full_line_def)

lemma fold_view_erase:
  "\<not> read_only v \<Longrightarrow> fold view_erase rs v = v\<lparr>buffer := fold erase_text rs (buffer v)\<rparr>"
  by (induction rs arbitrary: v) (simp_all add: view_erase_def erase_text_def)

lemma erase_line_regions:
  "pre = [] \<or> last pre = LF \<Longrightarrow> n \<le> count_list rest LF \<Longrightarrow>
   fold erase_text (rev (line_regions n (pre @ rest) (length pre))) (pre @ rest)
     = pre @ (drop_first_line ^^ n) rest"
proof (induction n arbitrary: pre rest)
  case 0
  then show ?case by simp
next
  case (Suc n)
  from Suc.prems(2) obtain ln rest' where
    rest: "rest = ln @ LF # rest'" and ln: "LF \<notin> set ln"
    using split_at_LF[of rest] by auto
  let ?pre' = "pre @ ln @ [LF]"
  have cnt: "n \<le> count_list rest' LF"
    using Suc.prems(2) ln by (simp add: rest count_list_0_iff)
  have b: "line_begin (pre @ rest) (length pre) = length pre"
    using Suc.prems(1) by (rule line_begin_closed)
  have e: "line_end (pre @ rest) (length pre) = length ?pre'"
    using line_end_split[OF ln, of pre rest'] by (simp add: rest)
  have unfold: "line_regions (Suc n) (pre @ rest) (length pre)
                  = (length pre, length ?pre') # line_regions n (pre @ rest) (length ?pre')"
    by (simp only: line_regions.simps b e)
  have ih: "fold erase_text (rev (line_regions n (?pre' @ rest') (length ?pre'))) (?pre' @ rest')
              = ?pre' @ (drop_first_line ^^ n) rest'"
    by (rule Suc.IH) (simp_all add: cnt)
  have whole: "pre @ rest = ?pre' @ rest'" by (simp add: rest)
  have "fold erase_text (rev (line_regions (Suc n) (pre @ rest) (length pre))) (pre @ rest)
          = erase_text (length pre, length ?pre') (?pre' @ (drop_first_line ^^ n) rest')"
    by (simp only: unfold rev.simps fold_append fold_simps comp_apply) (simp only: whole ih)
  also have "\<dots> = pre @ (drop_first_line ^^ n) rest'"
    by (simp add: erase_text_def region_begin_def region_end_def)
  also have "(drop_first_line ^^ n) rest' = (drop_first_line ^^ Suc n) rest"
    using drop_first_line_split[OF ln, of rest'] by (simp add: rest funpow_swap1)
  finally show ?case .
qed

lemma count_drop_first_lines:
  "n \<le> count_list s LF \<Longrightarrow> count_list ((drop_first_line ^^ n) s) LF = count_list s LF - n"
proof (induction n arbitrary: s)
  case 0
  then show ?case by simp
next
  case (Suc n)
  then obtain ln rest where s: "s = ln @ LF # rest" and ln: "LF \<notin> set ln"
    using split_at_LF[of s] by auto
  have "count_list ((drop_first_line ^^ n) rest) LF = count_list rest LF - n"
    using Suc.prems ln by (intro Suc.IH) (simp add: s count_list_0_iff)
  then show ?case
    using ln drop_first_line_split[OF ln, of rest] by (simp add: s funpow_swap1 count_list_0_iff)
qed

lemma drop_first_lines_unlines:
  "\<forall>ln \<in> set lns. LF \<notin> set ln \<Longrightarrow>
   (drop_first_line ^^ n) (concat (map (\<lambda>ln. ln @ [LF]) lns) @ rest)
     = (if n \<le> length lns then concat (map (\<lambda>ln. ln @ [LF]) (drop n lns)) @ rest
        else (drop_first_line ^^ (n - length lns)) rest)"
proof (induction n arbitrary: lns)
  case 0
  then show ?case by simp
next
  case (Suc n)
  show ?case
  proof (cases lns)
    case Nil
    then show ?thesis by simp
  next
    case (Cons ln lns')
    have "drop_first_line (concat (map (\<lambda>ln. ln @ [LF]) lns) @ rest)
            = concat (map (\<lambda>ln. ln @ [LF]) lns') @ rest"
      using Suc.prems drop_first_line_split[of ln "concat (map (\<lambda>ln. ln @ [LF]) lns') @ rest"]
      by (simp add: Cons)
    then show ?thesis
      using Suc.IH[of lns'] Suc.prems by (simp add: Cons funpow_swap1)
  qed
qed

lemma insert_loop_writable:
  "\<not> read_only v \<Longrightarrow>
   insert_loop ms (v, l) =
     (v\<lparr>buffer := buffer v @ concat (map entry_text ms)\<rparr>,
      if ms = [] then l
      else Some \<lparr>total_lines = int (count_list (buffer v @ concat (map entry_text ms)) LF),
                 point = 0, regions = []\<rparr>)"
proof (induction ms arbitrary: v l)
  case Nil
  then show ?case by simp
next
  case (Cons m ms)
  obtain p t where m: "m = (p, t)" by (cases m)
  let ?v' = "view_insert (view_size v) (format_line p (str_replace [CR, LF] [LF] t)) v"
  have v': "?v' = v\<lparr>buffer := buffer v @ entry_text m\<rparr>"
    using Cons.prems by (simp add: view_insert_def view_size_def entry_text_def format_line_def m)
  have total: "fst (rowcol ?v' (view_size ?v')) = int (count_list (buffer v @ entry_text m) LF)"
    unfolding v' by (simp add: rowcol_def view_size_def Let_def)
  have step: "insert_loop (m # ms) (v, l)
                = insert_loop ms (?v', Some \<lparr>total_lines = fst (rowcol ?v' (view_size ?v')),
                                               point = 0, regions = []\<rparr>)"
    by (simp add: m Let_def)
  show ?case
    unfolding step total unfolding v' using Cons.IH[of "v\<lparr>buffer := buffer v @ entry_text m\<rparr>"] Cons.prems by simp
qed

lemma run_nonempty_queue:
  fixes v :: view and m :: "string \<times> string"
  assumes q: "tbp window_id = Some (m # ms)"
  defines "inserted \<equiv> buffer v @ concat (map entry_text (m # ms))"
  defines "n \<equiv> nat (max 0 (int (count_list inserted LF) - SERVER_PANEL_MAX_LINES))"
  shows "LspUpdateServerPanelCommand_run v window_id tbp
           = Inr (v\<lparr>buffer := (drop_first_line ^^ n) inserted, read_only := True\<rparr>,
                  tbp(window_id := None))"
proof -
  let ?v0 = "v\<lparr>read_only := False\<rparr>"
  let ?v1 = "?v0\<lparr>buffer := inserted\<rparr>"
  let ?l = "\<lparr>total_lines = int (count_list inserted LF), point = 0, regions = []\<rparr>"
  have ins: "insert_loop (m # ms) (?v0, None) = (?v1, Some ?l)"
    using insert_loop_writable[of ?v0 "m # ms" None]
    by (simp add: inserted_def)
  have n_le: "n \<le> count_list inserted LF"
    by (simp add: n_def SERVER_PANEL_MAX_LINES_def)
  have regs: "regions (collect_loop n ?v1 ?l) = line_regions n inserted 0"
    by (simp add: regions_collect_loop)
  have "fold erase_text (rev (line_regions n ([] @ inserted) (length ([]::string)))) ([] @ inserted)
          = [] @ (drop_first_line ^^ n) inserted"
    using n_le by (intro erase_line_regions) simp_all
  then have er: "erase_loop (line_regions n inserted 0) ?v1
                   = ?v1\<lparr>buffer := (drop_first_line ^^ n) inserted\<rparr>"
    by (simp add: erase_loop_def fold_view_erase)
  show ?thesis
    unfolding LspUpdateServerPanelCommand_run_def q set_read_only_def
    by (simp add: ins Let_def regs[unfolded n_def] er[unfolded n_def] n_def)
qed

lemma run_missing_key:
  "tbp window_id = None \<Longrightarrow> LspUpdateServerPanelCommand_run v window_id tbp = Inl (KeyError window_id)"
  by (simp add: LspUpdateServerPanelCommand_run_def)

lemma run_empty_queue:
  "tbp window_id = Some [] \<Longrightarrow>
   LspUpdateServerPanelCommand_run v window_id tbp = Inl (NameError ''total_lines'')"
  by (simp add: LspUpdateServerPanelCommand_run_def)

lemma str_replace_no_CR:
  "CR \<notin> set s \<Longrightarrow> str_replace [CR, LF] [LF] s = s"
  by (induction s) auto

lemma str_replace_CRLF:
  "CR \<notin> set a \<Longrightarrow> str_replace [CR, LF] [LF] (a @ CR # LF # b) = a @ LF # str_replace [CR, LF] [LF] b"
  by (induction a) auto

lemma str_replace_normalize_eol: "str_replace [CR, LF] [LF] s = normalize_eol s"
proof (induction s rule: length_induct)
  case (1 s)
  show ?case
  proof (cases s)
    case Nil
    then show ?thesis by simp
  next
    case (Cons c cs)
    show ?thesis
    proof (cases "c = CR \<and> cs \<noteq> [] \<and> hd cs = LF")
      case True
      then obtain cs' where cs: "cs = LF # cs'" by (cases cs) auto
      have "str_replace [CR, LF] [LF] cs' = normalize_eol cs'"
        using 1 by (simp add: Cons cs)
      then show ?thesis using True by (simp add: Cons cs)
    next
      case False
      have "str_replace [CR, LF] [LF] cs = normalize_eol cs"
        using 1 by (simp add: Cons)
      moreover have "take 2 (c # cs) \<noteq> [CR, LF]"
        using False by (cases cs) auto
      ultimately show ?thesis using False by (simp add: Cons)
    qed
  qed
qed

lemma normalize_eol_append:
  "normalize_eol (a @ [CR, LF] @ b) = normalize_eol a @ [LF] @ normalize_eol b"
proof (induction a)
  case Nil
  then show ?case by simp
next
  case (Cons c a)
  then show ?case by (cases a) auto
qed

lemma normalize_eol_id:
  "\<nexists>a b. m = a @ [CR, LF] @ b \<Longrightarrow> normalize_eol m = m"
proof (induction m)
  case Nil
  then show ?case by simp
next
  case (Cons c m)
  have no: "\<nexists>a b. m = a @ [CR, LF] @ b"
  proof
    assume "\<exists>a b. m = a @ [CR, LF] @ b"
    then obtain a b where "m = a @ [CR, LF] @ b" by blast
    then have "c # m = (c # a) @ [CR, LF] @ b" by simp
    then show False using Cons.prems by blast
  qed
  have "\<not> (c = CR \<and> m \<noteq> [] \<and> hd m = LF)"
  proof
    assume h: "c = CR \<and> m \<noteq> [] \<and> hd m = LF"
    then obtain m' where "m = LF # m'" by (cases m) auto
    then have "c # m = [] @ [CR, LF] @ m'" using h by simp
    then show False using Cons.prems by blast
  qed
  then show ?case using Cons.IH[OF no] by auto
qed

lemma entry_text_normalize:
  "entry_text = (\<lambda>(prefix, message). prefix @ '': '' @ normalize_eol message @ [LF])"
  by (auto simp: entry_text_def str_replace_normalize_eol fun_eq_iff)

section \<open>Panels and the pending dictionary\<close>

lemma update_view_frame [simp]:
  "windows (update_view vid f s) = windows s"
  "to_be_processed (update_view vid f s) = to_be_processed s"
  "timeouts (update_view vid f s) = timeouts s"
  by (simp_all add: update_view_def split: option.splits)

lemma settings_set_frame [simp]:
  "windows (settings_set vid k x s) = windows s"
  "to_be_processed (settings_set vid k x s) = to_be_processed s"
  "timeouts (settings_set vid k x s) = timeouts s"
  by (simp_all add: settings_set_def)

lemma fold_settings_frame [simp]:
  "windows (fold (\<lambda>(key, val). settings_set vid key val) kvs s) = windows s"
  "to_be_processed (fold (\<lambda>(key, val). settings_set vid key val) kvs s) = to_be_processed s"
  "timeouts (fold (\<lambda>(key, val). settings_set vid key val) kvs s) = timeouts s"
  by (induction kvs arbitrary: s) (simp_all split: prod.splits)

lemma window_create_frame:
  "window_create_output_panel window name s = (vid, s1) \<Longrightarrow>
   to_be_processed s1 = to_be_processed s \<and> timeouts s1 = timeouts s"
  by (auto simp: window_create_output_panel_def Let_def split: option.splits)

lemma window_create_registers:
  "window_create_output_panel window name s = (vid, s1) \<Longrightarrow> vid \<noteq> 0 \<Longrightarrow>
   window_find_output_panel s1 window name = Some vid"
  by (auto simp: window_create_output_panel_def window_find_output_panel_def Let_def
           split: option.splits)

lemma window_create_again:
  "window_find_output_panel s window name = Some vid \<Longrightarrow>
   window_create_output_panel window name s = (vid, s)"
  by (auto simp: window_create_output_panel_def window_find_output_panel_def split: option.splits)

lemma find_windows_cong:
  "windows s' = windows s \<Longrightarrow>
   window_find_output_panel s' window name = window_find_output_panel s window name"
  by (simp add: window_find_output_panel_def)

lemma create_panel_frame:
  assumes "create_panel window name rf rl syntax s = (panel, s1)"
  shows "to_be_processed s1 = to_be_processed s \<and> timeouts s1 = timeouts s \<and>
         (truthy panel \<longrightarrow> window_find_output_panel s1 window name = panel)"
proof -
  obtain vid sa where a: "window_create_output_panel window name s = (vid, sa)"
    by (cases "window_create_output_panel window name s")
  let ?sb = "fold (\<lambda>(key, val). settings_set vid key val) OUTPUT_PANEL_SETTINGS sa"
  have cop: "create_output_panel window name s = (Some vid, ?sb)"
    by (simp add: create_output_panel_def a)
  show ?thesis
  proof (cases "vid = 0")
    case True
    then have "panel = None" "s1 = ?sb"
      using assms by (simp_all add: create_panel_def cop)
    then show ?thesis using window_create_frame[OF a] by simp
  next
    case False
    let ?s2 = "if rf \<noteq> [] then settings_set vid ''result_file_regex'' (SStr rf) ?sb else ?sb"
    let ?s3 = "if rl \<noteq> [] then settings_set vid ''result_line_regex'' (SStr rl) ?s2 else ?s2"
    let ?s4 = "assign_syntax vid syntax ?s3"
    have w4: "windows ?s4 = windows sa" by (simp add: assign_syntax_def)
    have t4: "to_be_processed ?s4 = to_be_processed sa \<and> timeouts ?s4 = timeouts sa"
      by (simp add: assign_syntax_def)
    have "window_find_output_panel ?s4 window name = Some vid"
      using window_create_registers[OF a False] find_windows_cong[OF w4] by simp
    then have again: "window_create_output_panel window name ?s4 = (vid, ?s4)"
      by (rule window_create_again)
    have res: "panel = Some vid" "s1 = update_view vid (set_read_only True) ?s4"
      using assms False by (simp_all add: create_panel_def cop Let_def again)
    have "window_find_output_panel s1 window name = Some vid"
      using window_create_registers[OF a False] find_windows_cong[of s1 sa] w4
      by (simp add: res)
    then show ?thesis
      using t4 window_create_frame[OF a] by (simp add: res)
  qed
qed

lemma ensure_server_panel_frame:
  assumes "ensure_server_panel window s = (panel, s1)"
  shows "to_be_processed s1 = to_be_processed s \<and> timeouts s1 = timeouts s \<and>
         (truthy panel \<longrightarrow> window_find_output_panel s1 window LanguageServers = panel)"
proof (cases "truthy (window_find_output_panel s window LanguageServers)")
  case True
  then have "panel = window_find_output_panel s window LanguageServers" "s1 = s"
    using assms by (auto simp: ensure_server_panel_def ensure_panel_def)
  then show ?thesis by simp
next
  case False
  then have "create_panel window LanguageServers [] []
               ''Packages/LSP/Syntaxes/ServerLog.sublime-syntax'' s = (panel, s1)"
    using assms by (simp add: ensure_server_panel_def ensure_panel_def)
  then show ?thesis by (rule create_panel_frame)
qed

lemma update_server_panel_eq:
  assumes "window_is_valid s window" and "ensure_server_panel window s = (panel, s1)"
    and "truthy panel"
  shows "update_server_panel window prefix message s =
           s1\<lparr>to_be_processed := (to_be_processed s)(window \<mapsto> queue_of s window @ [(prefix, message)]),
              timeouts := timeouts s @
                [(SERVER_PANEL_DEBOUNCE_TIME_MS,
                  \<lparr>job_panel = panel, job_window_id = window,
                   job_previous_length = Suc (length (queue_of s window))\<rparr>)]\<rparr>"
  using assms ensure_server_panel_frame[OF assms(2)]
  by (simp add: update_server_panel_def debounced_def queue_of_def Let_def)

lemma condition_iff:
  "condition j t \<longleftrightarrow>
     (\<exists>p q. job_panel j = Some p \<and> p \<noteq> 0 \<and> view_is_valid t p \<and>
            to_be_processed t (job_window_id j) = Some q \<and>
            (10 \<le> length q \<or> length q = job_previous_length j))"
  by (cases "job_panel j") (auto simp: condition_def Let_def split: option.splits)

lemma flush_nonempty_queue:
  assumes "job_panel j = Some p" "p \<noteq> 0" "views t p = Some v"
    and "to_be_processed t (job_window_id j) = Some (m # ms)"
  shows "flush j t =
           Inr (t\<lparr>views := (views t)(p \<mapsto>
                    v\<lparr>buffer :=
                        (drop_first_line ^^
                           nat (max 0 (int (count_list (buffer v @ concat (map entry_text (m # ms))) LF)
                                       - SERVER_PANEL_MAX_LINES)))
                          (buffer v @ concat (map entry_text (m # ms))),
                      read_only := True\<rparr>),
                  to_be_processed := (to_be_processed t)(job_window_id j := None)\<rparr>)"
  using assms(1-3)
    run_nonempty_queue[of "to_be_processed t" "job_window_id j" m ms v, OF assms(4)]
  by (simp add: flush_def run_command_def)

lemma timeout_expires_scheduled:
  assumes "0 < job_previous_length j"
  shows "\<exists>t'. timeout_expires j t = Inr t'"
proof (cases "condition j t")
  case False
  then show ?thesis by (simp add: timeout_expires_def)
next
  case True
  then obtain p q where pq: "job_panel j = Some p" "p \<noteq> 0" "view_is_valid t p"
      "to_be_processed t (job_window_id j) = Some q"
      "10 \<le> length q \<or> length q = job_previous_length j"
    unfolding condition_iff by blast
  from pq(5) assms obtain m ms where q: "q = m # ms" by (cases q) auto
  from pq(3) obtain v where v: "views t p = Some v" by (auto simp: view_is_valid_def)
  show ?thesis
    using True flush_nonempty_queue[OF pq(1,2) v pq(4)[unfolded q]]
    by (simp add: timeout_expires_def)
qed

lemma insert_loop_from_run:
  "fst (insert_loop q (set_read_only False v, None))
     = v\<lparr>buffer := buffer v @ concat (map entry_text q), read_only := False\<rparr>"
  using insert_loop_writable[of "v\<lparr>read_only := False\<rparr>" q None]
  by (simp add: set_read_only_def)

lemma flush_nonempty_queue_normalized:
  assumes "job_panel j = Some p" "p \<noteq> 0" "views t p = Some v"
    and "to_be_processed t (job_window_id j) = Some (m # ms)"
  shows "flush j t =
           Inr (t\<lparr>views := (views t)(p \<mapsto>
                    v\<lparr>buffer :=
                        (drop_first_line ^^
                           nat (max 0 (int (count_list (buffer v @ concat (map
                                  (\<lambda>(prefix, message). prefix @ '': '' @ normalize_eol message @ [LF])
                                  (m # ms))) LF)
                                       - SERVER_PANEL_MAX_LINES)))
                          (buffer v @ concat (map
                             (\<lambda>(prefix, message). prefix @ '': '' @ normalize_eol message @ [LF])
                             (m # ms))),
                      read_only := True\<rparr>),
                  to_be_processed := (to_be_processed t)(job_window_id j := None)\<rparr>)"
  using flush_nonempty_queue[OF assms] unfolding entry_text_normalize .

lemma insert_loop_from_run_normalized:
  "fst (insert_loop q (set_read_only False v, None))
     = v\<lparr>buffer := buffer v @ concat (map
           (\<lambda>(prefix, message). prefix @ '': '' @ normalize_eol message @ [LF]) q),
         read_only := False\<rparr>"
  using insert_loop_from_run[of q v] unfolding entry_text_normalize .

section \<open>The example state\<close>

lemma demo_valid: "window_is_valid demo_env 2"
  by (simp add: window_is_valid_def demo_env_def)

lemma demo_ensure: "ensure_server_panel 2 demo_env = (Some 7, demo_env)"
  by (simp add: ensure_server_panel_def ensure_panel_def window_find_output_panel_def
      LanguageServers_def demo_env_def Let_def)

lemma demo_entry: "entry_text (''server'', ''started'') = ''server: started'' @ [LF]"
  by (simp add: entry_text_def)

lemma demo_update: "update_server_panel 2 ''server'' ''started'' demo_env = demo_queued"
proof -
  have t: "truthy (Some 7)" by simp
  have q: "queue_of demo_env 2 = []" by (simp add: queue_of_def demo_env_def)
  have e: "to_be_processed demo_env = Map.empty" "timeouts demo_env = []"
    by (simp_all add: demo_env_def)
  show ?thesis
    unfolding update_server_panel_eq[OF demo_valid demo_ensure t] q e
    by (simp add: demo_queued_def demo_job_def SERVER_PANEL_DEBOUNCE_TIME_MS_def)
qed

lemma demo_last: "snd (last (timeouts demo_queued)) = demo_job"
  by (simp add: demo_queued_def)

lemma demo_condition: "condition demo_job demo_queued"
  by (simp add: condition_iff demo_job_def demo_queued_def demo_env_def view_is_valid_def)

lemma demo_inserted:
  "buffer demo_view @ concat (map entry_text [(''server'', ''started'')])
     = ''ready'' @ [LF] @ ''server: started'' @ [LF]"
  by (simp add: demo_entry demo_view_def)

lemma demo_no_trim:
  "nat (max 0 (int (count_list (''ready'' @ [LF] @ ''server: started'' @ [LF]) LF)
               - SERVER_PANEL_MAX_LINES)) = 0"
  by (simp add: SERVER_PANEL_MAX_LINES_def)

lemma demo_valid2: "window_is_valid demo_queued 2"
  by (simp add: window_is_valid_def demo_queued_def demo_env_def)

lemma demo_ensure2: "ensure_server_panel 2 demo_queued = (Some 7, demo_queued)"
  by (simp add: ensure_server_panel_def ensure_panel_def window_find_output_panel_def
      LanguageServers_def demo_queued_def demo_env_def Let_def)

lemma demo_update2:
  "update_server_panel 2 ''client'' (''one'' @ [CR, LF] @ ''two'') demo_queued = demo_queued2"
proof -
  have t: "truthy (Some 7)" by simp
  have q: "queue_of demo_queued 2 = [(''server'', ''started'')]"
    by (simp add: queue_of_def demo_queued_def)
  have e: "to_be_processed demo_queued = [2 \<mapsto> [(''server'', ''started'')]]"
    "timeouts demo_queued = [(80, demo_job)]"
    by (simp_all add: demo_queued_def)
  show ?thesis
    unfolding update_server_panel_eq[OF demo_valid2 demo_ensure2 t] q e
    by (simp add: demo_queued2_def demo_queued_def demo_job2_def SERVER_PANEL_DEBOUNCE_TIME_MS_def)
qed

lemma demo_condition2: "condition demo_job2 demo_queued2"
  by (simp add: condition_iff demo_job2_def demo_queued2_def demo_env_def view_is_valid_def)

lemma demo_condition_stale: "\<not> condition demo_job demo_queued2"
  by (simp add: condition_iff demo_job_def demo_queued2_def demo_env_def view_is_valid_def)

lemma demo_normalized: "normalize_eol (''one'' @ [CR, LF] @ ''two'') = ''one'' @ [LF] @ ''two''"
  by simp

lemma demo_inserted2:
  "buffer demo_view @ concat (map
      (\<lambda>(prefix, message). prefix @ '': '' @ normalize_eol message @ [LF])
      [(''server'', ''started''), (''client'', ''one'' @ [CR, LF] @ ''two'')])
     = ''ready'' @ [LF] @ ''server: started'' @ [LF] @ ''client: one'' @ [LF] @ ''two'' @ [LF]"
  by (simp add: demo_view_def)

lemma demo_no_trim2:
  "nat (max 0 (int (count_list
      (''ready'' @ [LF] @ ''server: started'' @ [LF] @ ''client: one'' @ [LF] @ ''two'' @ [LF]) LF)
               - SERVER_PANEL_MAX_LINES)) = 0"
  by (simp add: SERVER_PANEL_MAX_LINES_def)

lemma demo_no_crlf: "\<nexists>a b. ''started'' = a @ [CR, LF] @ b"
proof
  assume "\<exists>a b. ''started'' = a @ [CR, LF] @ b"
  then obtain a b where "''started'' = a @ [CR, LF] @ b" by blast
  then have "set ''started'' = set (a @ [CR, LF] @ b)" by (rule arg_cong)
  then have "CR \<in> set ''started''" by simp
  then show False by simp
qed

section \<open>Queueing and flushing server messages\<close>

text \<open>
  Claim C1. A call of \<open>update_server_panel\<close> on a valid window for which
  \<open>ensure_server_panel\<close> yields a panel appends the pair to the window's pending queue and
  schedules one job with the interval \<open>SERVER_PANEL_DEBOUNCE_TIME_MS = 80\<close>. In any later
  state the job's condition holds exactly when the panel is still valid, the dictionary
  still has a queue for the window, and that queue has ten or more entries or exactly as
  many as it had right after this message was appended. When the condition is false the
  expiry of the timer leaves the state as it is.
\<close>

theorem update_server_panel_schedules_flush:
  assumes "window_is_valid s window" and "ensure_server_panel window s = (panel, s1)"
    and "truthy panel"
  shows "let j = \<lparr>job_panel = panel, job_window_id = window,
                  job_previous_length = length (queue_of s window @ [(prefix, message)])\<rparr>
         in update_server_panel window prefix message s =
              s1\<lparr>to_be_processed :=
                    (to_be_processed s)(window \<mapsto> queue_of s window @ [(prefix, message)]),
                 timeouts := timeouts s @ [(SERVER_PANEL_DEBOUNCE_TIME_MS, j)]\<rparr> \<and>
            SERVER_PANEL_DEBOUNCE_TIME_MS = 80 \<and>
            (\<forall>t. condition j t =
                   (view_is_valid t (the panel) \<and>
                    (\<exists>q. to_be_processed t window = Some q \<and>
                         (10 \<le> length q \<or>
                          length q = length (queue_of s window @ [(prefix, message)])))) \<and>
                 (\<not> condition j t \<longrightarrow> timeout_expires j t = Inr t))"
proof -
  from assms(3) obtain p where p: "panel = Some p" "p \<noteq> 0" by (cases panel) auto
  show ?thesis
    unfolding Let_def
    using update_server_panel_eq[OF assms, of prefix message] p
    by (auto simp: condition_iff timeout_expires_def SERVER_PANEL_DEBOUNCE_TIME_MS_def)
qed

theorem update_server_panel_schedules_flush_witness:
  "window_is_valid demo_env 2 \<and> ensure_server_panel 2 demo_env = (Some 7, demo_env) \<and>
   truthy (Some 7) \<and>
   update_server_panel 2 ''server'' ''started'' demo_env =
     demo_env\<lparr>to_be_processed := [2 \<mapsto> [(''server'', ''started'')]],
              timeouts := [(80, \<lparr>job_panel = Some 7, job_window_id = 2,
                                 job_previous_length = 1\<rparr>)]\<rparr> \<and>
   condition \<lparr>job_panel = Some 7, job_window_id = 2, job_previous_length = 1\<rparr>
     (update_server_panel 2 ''server'' ''started'' demo_env)"
proof -
  let ?j = "\<lparr>job_panel = Some 7, job_window_id = 2, job_previous_length = 1\<rparr>"
  let ?s' = "demo_env\<lparr>to_be_processed := [2 \<mapsto> [(''server'', ''started'')]],
                      timeouts := [(80, ?j)]\<rparr>"
  have t: "truthy (Some 7)" by simp
  have q: "queue_of demo_env 2 = []" by (simp add: queue_of_def demo_env_def)
  have e: "to_be_processed demo_env = Map.empty" "timeouts demo_env = []"
    by (simp_all add: demo_env_def)
  note th = update_server_panel_schedules_flush[OF demo_valid demo_ensure t,
      of "''server''" "''started''", unfolded Let_def q e]
  have upd: "update_server_panel 2 ''server'' ''started'' demo_env = ?s'"
    using th by simp
  have "condition ?j ?s' =
          (view_is_valid ?s' (the (Some 7)) \<and>
           (\<exists>q. to_be_processed ?s' 2 = Some q \<and>
                (10 \<le> length q \<or> length q = length ([] @ [(''server'', ''started'')]))))"
    using th by simp
  then have "condition ?j ?s'"
    by (simp add: view_is_valid_def demo_env_def)
  then show ?thesis
    using upd demo_valid demo_ensure by simp
qed

text \<open>
  Claim C2. When the dictionary holds a non-empty queue for \<open>window_id\<close>, the command
  returns normally; with \<open>total\<close> the number of line feeds in the panel after all queued
  entries have been inserted, it removes the first \<open>max 0 (total - 500)\<close> lines and nothing
  else, so the panel is left with at most \<open>SERVER_PANEL_MAX_LINES\<close> complete lines. The
  regions are erased last one first; the lines that go are the oldest ones.
\<close>

theorem run_keeps_panel_within_max_lines:
  assumes "tbp window_id = Some (m # ms)"
  shows "\<exists>v'. LspUpdateServerPanelCommand_run v window_id tbp = Inr (v', tbp(window_id := None)) \<and>
           (let inserted = buffer v @ concat (map entry_text (m # ms));
                total = int (count_list inserted LF);
                n = nat (max 0 (total - SERVER_PANEL_MAX_LINES))
            in buffer v' = (drop_first_line ^^ n) inserted \<and>
               int (count_list (buffer v') LF) = total - int n \<and>
               int (count_list (buffer v') LF) \<le> SERVER_PANEL_MAX_LINES)"
proof -
  let ?ins = "buffer v @ concat (map entry_text (m # ms))"
  let ?n = "nat (max 0 (int (count_list ?ins LF) - SERVER_PANEL_MAX_LINES))"
  let ?v' = "v\<lparr>buffer := (drop_first_line ^^ ?n) ?ins, read_only := True\<rparr>"
  have le: "?n \<le> count_list ?ins LF" by (simp add: SERVER_PANEL_MAX_LINES_def)
  have cnt: "count_list ((drop_first_line ^^ ?n) ?ins) LF = count_list ?ins LF - ?n"
    using le by (rule count_drop_first_lines)
  have r: "LspUpdateServerPanelCommand_run v window_id tbp = Inr (?v', tbp(window_id := None))"
    by (rule run_nonempty_queue[of tbp window_id m ms v, OF assms])
  have b: "buffer ?v' = (drop_first_line ^^ ?n) ?ins" by simp
  have c1: "int (count_list (buffer ?v') LF) = int (count_list ?ins LF) - int ?n"
    unfolding b cnt using le by (rule of_nat_diff)
  have c2: "int (count_list ?ins LF) - int ?n \<le> SERVER_PANEL_MAX_LINES"
    by (simp add: SERVER_PANEL_MAX_LINES_def)
  have "LspUpdateServerPanelCommand_run v window_id tbp = Inr (?v', tbp(window_id := None)) \<and>
        buffer ?v' = (drop_first_line ^^ ?n) ?ins \<and>
        int (count_list (buffer ?v') LF) = int (count_list ?ins LF) - int ?n \<and>
        int (count_list (buffer ?v') LF) \<le> SERVER_PANEL_MAX_LINES"
    using r b c1 c2 by (simp only: simp_thms)
  then show ?thesis unfolding Let_def by (rule exI[of _ ?v'])
qed

theorem run_keeps_panel_within_max_lines_witness:
  "[2 \<mapsto> [(''server'', ''started'')]] (2::nat) = Some ((''server'', ''started'') # []) \<and>
   (\<exists>v'. LspUpdateServerPanelCommand_run demo_view 2 [2 \<mapsto> [(''server'', ''started'')]]
            = Inr (v', Map.empty) \<and>
          buffer v' = ''ready'' @ [LF] @ ''server: started'' @ [LF] \<and>
          int (count_list (buffer v') LF) \<le> SERVER_PANEL_MAX_LINES)"
proof -
  have h: "[2 \<mapsto> [(''server'', ''started'')]] (2::nat) = Some ((''server'', ''started'') # [])"
    by simp
  have ins: "buffer demo_view @ concat (map entry_text [(''server'', ''started'')])
               = ''ready'' @ [LF] @ ''server: started'' @ [LF]"
    by (simp add: demo_entry demo_view_def)
  have cnt: "count_list (''ready'' @ [LF] @ ''server: started'' @ [LF]) LF = 2"
    by simp
  from run_keeps_panel_within_max_lines[of "[2 \<mapsto> [(''server'', ''started'')]]" 2
        "(''server'', ''started'')" "[]" demo_view, OF h]
  obtain v' where
    r: "LspUpdateServerPanelCommand_run demo_view 2 [2 \<mapsto> [(''server'', ''started'')]]
          = Inr (v', [2 \<mapsto> [(''server'', ''started'')]](2 := None))"
    and b: "buffer v' =
             (drop_first_line ^^ nat (max 0 (int (count_list
                 (buffer demo_view @ concat (map entry_text [(''server'', ''started'')])) LF)
                 - SERVER_PANEL_MAX_LINES)))
               (buffer demo_view @ concat (map entry_text [(''server'', ''started'')]))"
    and c: "int (count_list (buffer v') LF) \<le> SERVER_PANEL_MAX_LINES"
    unfolding Let_def by blast
  have b': "buffer v' = ''ready'' @ [LF] @ ''server: started'' @ [LF]"
    using b unfolding ins cnt by (simp add: SERVER_PANEL_MAX_LINES_def)
  show ?thesis
    using h r b' c by simp
qed

text \<open>
  Claim C3. \<open>update_server_panel\<close> puts the pair at the end of the window's queue and
  schedules a job for the window's language-servers panel. When that job's flush runs, the
  first loop of the command appends one text per queued pair, in queue order, at the end
  of the panel: \<open>prefix\<close>, a colon and a space, the normalized message, and a line feed.
  Normalizing turns every carriage return and line feed pair into a line feed, splitting
  the message at such a pair, and leaves a message without such a pair as it is. The
  command removes the window's whole queue from the dictionary, so a second run for the
  window finds no key and writes nothing again.
\<close>

theorem queued_pairs_written_once_in_order:
  "(window_is_valid s window \<and> ensure_server_panel window s = (panel, s1) \<and> truthy panel \<longrightarrow>
      (let s' = update_server_panel window prefix message s
       in to_be_processed s' window = Some (queue_of s window @ [(prefix, message)]) \<and>
          window_find_output_panel s' window LanguageServers = panel \<and>
          job_panel (snd (last (timeouts s'))) = panel \<and>
          job_window_id (snd (last (timeouts s'))) = window \<and>
          0 < job_previous_length (snd (last (timeouts s'))))) \<and>
   (condition j t \<and> 0 < job_previous_length j \<longrightarrow>
      (\<exists>p v q. job_panel j = Some p \<and> views t p = Some v \<and>
         to_be_processed t (job_window_id j) = Some q \<and>
         (let inserted = buffer v @ concat (map
                (\<lambda>(prefix, message). prefix @ '': '' @ normalize_eol message @ [LF]) q);
              n = nat (max 0 (int (count_list inserted LF) - SERVER_PANEL_MAX_LINES))
          in fst (insert_loop q (set_read_only False v, None))
               = v\<lparr>buffer := inserted, read_only := False\<rparr> \<and>
             timeout_expires j t =
               Inr (t\<lparr>views := (views t)(p \<mapsto>
                          v\<lparr>buffer := (drop_first_line ^^ n) inserted, read_only := True\<rparr>),
                      to_be_processed := (to_be_processed t)(job_window_id j := None)\<rparr>)))) \<and>
   normalize_eol (a @ [CR, LF] @ b) = normalize_eol a @ [LF] @ normalize_eol b \<and>
   ((\<nexists>a b. message = a @ [CR, LF] @ b) \<longrightarrow> normalize_eol message = message) \<and>
   (tbp window = None \<longrightarrow> LspUpdateServerPanelCommand_run v0 window tbp = Inl (KeyError window))"
proof -
  have enqueue: "to_be_processed s' window = Some (queue_of s window @ [(prefix, message)]) \<and>
          window_find_output_panel s' window LanguageServers = panel \<and>
          job_panel (snd (last (timeouts s'))) = panel \<and>
          job_window_id (snd (last (timeouts s'))) = window \<and>
          0 < job_previous_length (snd (last (timeouts s')))"
    if a: "window_is_valid s window" "ensure_server_panel window s = (panel, s1)" "truthy panel"
      and s': "s' = update_server_panel window prefix message s" for s'
  proof -
    have f: "window_find_output_panel s1 window LanguageServers = panel"
      using ensure_server_panel_frame[OF a(2)] a(3) by simp
    show ?thesis
      unfolding s' update_server_panel_eq[OF a]
      using f by (simp add: window_find_output_panel_def)
  qed
  have written: "\<exists>p v q. job_panel j = Some p \<and> views t p = Some v \<and>
         to_be_processed t (job_window_id j) = Some q \<and>
         (let inserted = buffer v @ concat (map
                (\<lambda>(prefix, message). prefix @ '': '' @ normalize_eol message @ [LF]) q);
              n = nat (max 0 (int (count_list inserted LF) - SERVER_PANEL_MAX_LINES))
          in fst (insert_loop q (set_read_only False v, None))
               = v\<lparr>buffer := inserted, read_only := False\<rparr> \<and>
             timeout_expires j t =
               Inr (t\<lparr>views := (views t)(p \<mapsto>
                          v\<lparr>buffer := (drop_first_line ^^ n) inserted, read_only := True\<rparr>),
                      to_be_processed := (to_be_processed t)(job_window_id j := None)\<rparr>))"
    if c: "condition j t" and pos: "0 < job_previous_length j"
  proof -
    from c obtain p q where pq: "job_panel j = Some p" "p \<noteq> 0" "view_is_valid t p"
        "to_be_processed t (job_window_id j) = Some q"
        "10 \<le> length q \<or> length q = job_previous_length j"
      unfolding condition_iff by blast
    from pq(5) pos obtain m ms where q: "q = m # ms" by (cases q) auto
    from pq(3) obtain v where v: "views t p = Some v" by (auto simp: view_is_valid_def)
    have e: "timeout_expires j t = flush j t" using c by (simp add: timeout_expires_def)
    show ?thesis
      using e pq(1,4) v flush_nonempty_queue_normalized[OF pq(1,2) v pq(4)[unfolded q]]
        insert_loop_from_run_normalized[of q v]
      by (simp add: Let_def q)
  qed
  show ?thesis
    using enqueue written run_missing_key[of tbp window v0]
      normalize_eol_append[of a b] normalize_eol_id[of message]
    by (simp add: Let_def)
qed

theorem queued_pairs_written_once_in_order_witness:
  "window_is_valid demo_queued 2 \<and> ensure_server_panel 2 demo_queued = (Some 7, demo_queued) \<and>
   truthy (Some 7) \<and>
   update_server_panel 2 ''client'' (''one'' @ [CR, LF] @ ''two'')
     (update_server_panel 2 ''server'' ''started'' demo_env) = demo_queued2 \<and>
   to_be_processed demo_queued2 2
     = Some [(''server'', ''started''), (''client'', ''one'' @ [CR, LF] @ ''two'')] \<and>
   condition demo_job2 demo_queued2 \<and> 0 < job_previous_length demo_job2 \<and>
   \<not> condition demo_job demo_queued2 \<and>
   normalize_eol (''one'' @ [CR, LF] @ ''two'') = ''one'' @ [LF] @ ''two'' \<and>
   (\<nexists>a b. ''started'' = a @ [CR, LF] @ b) \<and> normalize_eol ''started'' = ''started'' \<and>
   timeout_expires demo_job2 demo_queued2 =
     Inr (demo_queued2\<lparr>views := [7 \<mapsto> demo_view\<lparr>buffer :=
              ''ready'' @ [LF] @ ''server: started'' @ [LF] @ ''client: one'' @ [LF] @ ''two'' @ [LF],
              read_only := True\<rparr>],
            to_be_processed := Map.empty\<rparr>) \<and>
   (Map.empty :: pending) 2 = None \<and>
   LspUpdateServerPanelCommand_run demo_view 2 Map.empty = Inl (KeyError 2)"
proof -
  have t: "truthy (Some 7)" by simp
  have pos: "0 < job_previous_length demo_job2" by (simp add: demo_job2_def)
  have q: "to_be_processed demo_queued2 2
     = Some [(''server'', ''started''), (''client'', ''one'' @ [CR, LF] @ ''two'')]"
    by (simp add: demo_queued2_def)
  have vw: "views demo_queued2 = [7 \<mapsto> demo_view]"
    by (simp add: demo_queued2_def demo_env_def)
  note th = queued_pairs_written_once_in_order[where s = demo_queued and window = 2
      and panel = "Some 7" and ?s1.0 = demo_queued and prefix = "''client''"
      and message = "''one'' @ [CR, LF] @ ''two''" and j = demo_job2 and t = demo_queued2
      and a = "''one''" and b = "''two''" and tbp = Map.empty and ?v0.0 = demo_view]
  note th' = queued_pairs_written_once_in_order[where s = demo_env and window = 2
      and panel = "Some 7" and ?s1.0 = demo_env and prefix = "''server''"
      and message = "''started''" and j = demo_job2 and t = demo_queued2
      and a = "''one''" and b = "''two''" and tbp = Map.empty and ?v0.0 = demo_view]
  from th demo_condition2 pos obtain p v q' where
    w: "job_panel demo_job2 = Some p" "views demo_queued2 p = Some v"
       "to_be_processed demo_queued2 (job_window_id demo_job2) = Some q'"
       "timeout_expires demo_job2 demo_queued2 =
          Inr (demo_queued2\<lparr>views := (views demo_queued2)(p \<mapsto>
                 v\<lparr>buffer := (drop_first_line ^^
                       nat (max 0 (int (count_list (buffer v @ concat (map
                          (\<lambda>(prefix, message). prefix @ '': '' @ normalize_eol message @ [LF]) q')) LF)
                                   - SERVER_PANEL_MAX_LINES)))
                     (buffer v @ concat (map
                        (\<lambda>(prefix, message). prefix @ '': '' @ normalize_eol message @ [LF]) q')),
                   read_only := True\<rparr>),
               to_be_processed := (to_be_processed demo_queued2)(job_window_id demo_job2 := None)\<rparr>)"
    unfolding Let_def by blast
  have p: "p = 7" using w(1) by (simp add: demo_job2_def)
  have v: "v = demo_view" using w(2) by (simp add: p vw)
  have q': "q' = [(''server'', ''started''), (''client'', ''one'' @ [CR, LF] @ ''two'')]"
    using w(3) q by (simp add: demo_job2_def)
  have jw: "job_window_id demo_job2 = 2" by (simp add: demo_job2_def)
  have tb: "(to_be_processed demo_queued2)(2 := None) = Map.empty"
    by (simp add: demo_queued2_def)
  have fire: "timeout_expires demo_job2 demo_queued2 =
     Inr (demo_queued2\<lparr>views := [7 \<mapsto> demo_view\<lparr>buffer :=
              ''ready'' @ [LF] @ ''server: started'' @ [LF] @ ''client: one'' @ [LF] @ ''two'' @ [LF],
              read_only := True\<rparr>],
            to_be_processed := Map.empty\<rparr>)"
    using w(4) unfolding p v q' demo_inserted2 demo_no_trim2 jw tb vw by simp
  have k: "LspUpdateServerPanelCommand_run demo_view 2 Map.empty = Inl (KeyError 2)"
    using th by simp
  have n1: "normalize_eol (''one'' @ [CR, LF] @ ''two'') = normalize_eol ''one'' @ [LF] @ normalize_eol ''two''"
    using th by blast
  have n2: "normalize_eol ''started'' = ''started''"
    using th' demo_no_crlf by blast
  have u: "update_server_panel 2 ''client'' (''one'' @ [CR, LF] @ ''two'')
     (update_server_panel 2 ''server'' ''started'' demo_env) = demo_queued2"
    by (simp only: demo_update demo_update2)
  have n1': "normalize_eol (''one'' @ [CR, LF] @ ''two'') = ''one'' @ [LF] @ ''two''"
    using n1 by simp
  show ?thesis
    using demo_valid2 demo_ensure2 t u q demo_condition2 pos demo_condition_stale n1' demo_no_crlf
      n2 fire k
    by (simp only: simp_thms)
qed

text \<open>
  Claim C7. The command raises \<open>KeyError\<close> when the dictionary has no entry for
  \<open>window_id\<close> and \<open>NameError\<close> for \<open>total_lines\<close> when the entry is the empty list; it
  returns normally exactly when the entry is a non-empty list. A job scheduled by
  \<open>update_server_panel\<close> never reaches either error: the queue is non-empty when the job is
  scheduled, the job's condition is false once the queue has been popped, and the expiry
  of its timer returns normally in every later state.
\<close>

theorem run_fails_only_without_pending_messages:
  "(tbp window_id = None \<longrightarrow>
      LspUpdateServerPanelCommand_run v window_id tbp = Inl (KeyError window_id)) \<and>
   (tbp window_id = Some [] \<longrightarrow>
      LspUpdateServerPanelCommand_run v window_id tbp = Inl (NameError ''total_lines'')) \<and>
   ((\<exists>r. LspUpdateServerPanelCommand_run v window_id tbp = Inr r)
      \<longleftrightarrow> (\<exists>m ms. tbp window_id = Some (m # ms))) \<and>
   (window_is_valid s window \<and> truthy (fst (ensure_server_panel window s)) \<longrightarrow>
      (let j = snd (last (timeouts (update_server_panel window prefix message s)))
       in to_be_processed (update_server_panel window prefix message s) window \<noteq> None \<and>
          to_be_processed (update_server_panel window prefix message s) window \<noteq> Some [] \<and>
          (\<forall>t. (to_be_processed t window = None \<longrightarrow> \<not> condition j t) \<and>
               (\<exists>t'. timeout_expires j t = Inr t'))))"
proof -
  have iff: "(\<exists>r. LspUpdateServerPanelCommand_run v window_id tbp = Inr r)
      \<longleftrightarrow> (\<exists>m ms. tbp window_id = Some (m # ms))"
  proof (cases "tbp window_id")
    case None
    then show ?thesis by (simp add: run_missing_key)
  next
    case (Some q)
    show ?thesis
    proof (cases q)
      case Nil
      then show ?thesis using Some by (simp add: run_empty_queue)
    next
      case (Cons m ms)
      then show ?thesis
        using Some run_nonempty_queue[of tbp window_id m ms v] by simp
    qed
  qed
  have sched: "to_be_processed s' window \<noteq> None \<and> to_be_processed s' window \<noteq> Some [] \<and>
          (\<forall>t. (to_be_processed t window = None \<longrightarrow> \<not> condition j t) \<and>
               (\<exists>t'. timeout_expires j t = Inr t'))"
    if a: "window_is_valid s window" "truthy (fst (ensure_server_panel window s))"
      and s': "s' = update_server_panel window prefix message s"
      and j: "j = snd (last (timeouts s'))" for s' j
  proof -
    obtain panel s1 where e: "ensure_server_panel window s = (panel, s1)"
      by (cases "ensure_server_panel window s")
    have t: "truthy panel" using a(2) e by simp
    have jw: "job_window_id j = window" and jp: "0 < job_previous_length j"
      unfolding j s' update_server_panel_eq[OF a(1) e t] by simp_all
    have "to_be_processed s' window = Some (queue_of s window @ [(prefix, message)])"
      unfolding s' update_server_panel_eq[OF a(1) e t] by simp
    moreover have "\<not> condition j t" if "to_be_processed t window = None" for t
      using that jw by (simp add: condition_iff)
    ultimately show ?thesis
      using timeout_expires_scheduled[OF jp] by simp
  qed
  show ?thesis
    using iff sched run_missing_key[of tbp window_id v] run_empty_queue[of tbp window_id v]
    by (simp add: Let_def)
qed

theorem run_fails_only_without_pending_messages_witness:
  "(Map.empty :: pending) 2 = None \<and>
   LspUpdateServerPanelCommand_run demo_view 2 Map.empty = Inl (KeyError 2) \<and>
   [2 \<mapsto> []] (2::nat) = Some ([] :: (string \<times> string) list) \<and>
   LspUpdateServerPanelCommand_run demo_view 2 [2 \<mapsto> []] = Inl (NameError ''total_lines'') \<and>
   window_is_valid demo_env 2 \<and> truthy (fst (ensure_server_panel 2 demo_env)) \<and>
   to_be_processed (update_server_panel 2 ''server'' ''started'' demo_env) 2 \<noteq> None \<and>
   (\<exists>t'. timeout_expires (snd (last (timeouts (update_server_panel 2 ''server'' ''started'' demo_env))))
           (update_server_panel 2 ''server'' ''started'' demo_env) = Inr t')"
proof -
  have t: "truthy (fst (ensure_server_panel 2 demo_env))" by (simp add: demo_ensure)
  note a = run_fails_only_without_pending_messages[of Map.empty 2 demo_view demo_env 2
      "''server''" "''started''"]
  note b = run_fails_only_without_pending_messages[of "[2 \<mapsto> []]" 2 demo_view demo_env 2
      "''server''" "''started''"]
  have k: "LspUpdateServerPanelCommand_run demo_view 2 Map.empty = Inl (KeyError 2)"
    using a by simp
  have n: "LspUpdateServerPanelCommand_run demo_view 2 [2 \<mapsto> []] = Inl (NameError ''total_lines'')"
    using b by simp
  have s: "to_be_processed (update_server_panel 2 ''server'' ''started'' demo_env) 2 \<noteq> None \<and>
     (\<exists>t'. timeout_expires (snd (last (timeouts (update_server_panel 2 ''server'' ''started'' demo_env))))
           (update_server_panel 2 ''server'' ''started'' demo_env) = Inr t')"
    using a demo_valid t unfolding Let_def by blast
  show ?thesis
    using k n s demo_valid t by simp
qed

section \<open>The package module: exported names\<close>

lemma namespace_filename_to_uri:
  "namespace ''filename_to_uri'' = Some (Function ''filename_to_uri'')"
  by code_simp

lemma namespace_uri_to_filename: "namespace ''uri_to_filename'' = None"
  by code_simp

lemma namespace_all: "namespace ''__all__'' = Some (StrList module_all)"
  by (simp add: namespace_def module_body_def)

lemma star_import_fails: "star_import = Inl (AttributeError ''uri_to_filename'')"
  by code_simp

lemma namespace_registration:
  "namespace ''register_plugin'' = Some (Imported [''core'', ''sessions''] ''register_plugin'')"
  "namespace ''unregister_plugin'' = Some (Imported [''core'', ''sessions''] ''unregister_plugin'')"
  by code_simp+

text \<open>
  Claim C4. For every argument the function that the package module defines as
  \<open>filename_to_uri\<close> returns \<open>None\<close>, never a string; the result does not depend on the
  argument; and the name \<open>filename_to_uri\<close> of the module is bound to that function, not to
  an import, so that is what a caller of the exported name gets.
\<close>

theorem package_filename_to_uri_returns_None:
  "filename_to_uri filename = None \<and>
   filename_to_uri filename \<noteq> Some uri \<and>
   filename_to_uri filename = filename_to_uri other \<and>
   module_getattr ''filename_to_uri'' = Inr (Function ''filename_to_uri'')"
  by (simp add: filename_to_uri_def module_getattr_def namespace_filename_to_uri)

text \<open>
  Claim C5. The list assigned to \<open>__all__\<close> contains \<open>uri_to_filename\<close>, no statement of
  the module binds that name, and so attribute access to it and the star import of the
  package both raise \<open>AttributeError\<close> for it.
\<close>

theorem all_names_unbound_uri_to_filename:
  "namespace ''__all__'' = Some (StrList module_all) \<and>
   ''uri_to_filename'' \<in> set module_all \<and>
   namespace ''uri_to_filename'' = None \<and>
   module_getattr ''uri_to_filename'' = Inl (AttributeError ''uri_to_filename'') \<and>
   star_import = Inl (AttributeError ''uri_to_filename'')"
proof -
  have "''uri_to_filename'' \<in> set module_all" by (simp add: module_all_def)
  then show ?thesis
    by (simp add: namespace_all namespace_uri_to_filename module_getattr_def star_import_fails)
qed

text \<open>
  Claim C6. The module imports \<open>register_plugin\<close> and \<open>unregister_plugin\<close> from
  \<open>core.sessions\<close>, its namespace binds both names to those imports, and \<open>__all__\<close> lists
  both.
\<close>

theorem registration_api_is_exported:
  "ImportFrom [''core'', ''sessions''] ''register_plugin'' \<in> set module_body \<and>
   ImportFrom [''core'', ''sessions''] ''unregister_plugin'' \<in> set module_body \<and>
   module_getattr ''register_plugin'' = Inr (Imported [''core'', ''sessions''] ''register_plugin'') \<and>
   module_getattr ''unregister_plugin''
     = Inr (Imported [''core'', ''sessions''] ''unregister_plugin'') \<and>
   ''register_plugin'' \<in> set module_all \<and>
   ''unregister_plugin'' \<in> set module_all"
proof -
  have "ImportFrom [''core'', ''sessions''] ''register_plugin'' \<in> set module_body"
       "ImportFrom [''core'', ''sessions''] ''unregister_plugin'' \<in> set module_body"
    by (simp_all add: module_body_def)
  moreover have "''register_plugin'' \<in> set module_all" "''unregister_plugin'' \<in> set module_all"
    by (simp_all add: module_all_def)
  ultimately show ?thesis
    by (simp add: module_getattr_def namespace_registration)
qed

section \<open>The Dispatcher: one resolution per id\<close>

lemma count_filter_upt:
  "count_list (filter P [0..<n]) i = (if i < n \<and> P i then 1 else 0)"
  by (induction n) auto

lemma settled_new: "settled new_dispatcher i"
  by (simp add: settled_def new_dispatcher_def resolved_count_def)

lemma settled_send: "settled d i \<Longrightarrow> settled (snd (send_request m d)) i"
  by (auto simp: settled_def send_request_def Let_def resolved_count_def less_Suc_eq
           split: if_splits)

lemma settled_timeout: "settled d i \<Longrightarrow> settled (timeout_elapses k d) i"
  by (cases "waiting d k"; cases "i = k")
     (auto simp: settled_def timeout_elapses_def resolved_count_def split: if_splits)

lemma settled_cancel: "settled d i \<Longrightarrow> settled (cancel k d) i"
  by (cases "waiting d k"; cases "i = k")
     (auto simp: settled_def cancel_def resolved_count_def split: if_splits)

lemma settled_response: "settled d i \<Longrightarrow> settled (receive_response k r d) i"
  by (cases "waiting d k"; cases "i = k")
     (auto simp: settled_def receive_response_def resolved_count_def split: if_splits)

lemma settled_terminate: "settled d i \<Longrightarrow> settled (terminate d) i"
proof -
  assume o: "settled d i"
  have c: "resolved_count (terminate d) i =
             resolved_count d i + (if i < next_id d \<and> waiting d i \<noteq> None then 1 else 0)"
    by (simp add: terminate_def resolved_count_def count_filter_upt comp_def)
  have w: "waiting (terminate d) i = None" and n: "next_id (terminate d) = next_id d"
    by (simp_all add: terminate_def)
  show ?thesis
    unfolding settled_def c w n using o[unfolded settled_def] by (auto split: if_splits)
qed

lemma settled_step: "settled d i \<Longrightarrow> settled (step e d) i"
  by (cases e) (simp_all add: settled_send settled_timeout settled_cancel settled_response
      settled_terminate)

lemma settled_fold: "settled d i \<Longrightarrow> settled (fold step es d) i"
  by (induction es arbitrary: d) (simp_all add: settled_step)

lemma settled_run: "settled (run_events es) i"
  unfolding run_events_def by (rule settled_fold[OF settled_new])

text \<open>
  Claim C8. After any run of sends, timeouts, cancellations, responses and terminations,
  no id has been resolved more than once, and an id that was handed out and is no longer
  pending has been resolved exactly once. For an id that is pending, whichever of timeout,
  cancellation and response arrival comes next resolves it, with its own outcome, and
  removes it from the pending map; for an id that is not pending, each of the three leaves
  the resolutions as they are.
\<close>

theorem dispatcher_resolves_each_id_once:
  "(let d = run_events es
    in resolved_count d i \<le> 1 \<and>
       (i < next_id d \<and> waiting d i = None \<longrightarrow> resolved_count d i = 1) \<and>
       (waiting d i \<noteq> None \<longrightarrow>
          resolved_count d i = 0 \<and>
          resolutions (timeout_elapses i d) = resolutions d @ [(i, Timeout)] \<and>
          resolutions (cancel i d) = resolutions d @ [(i, Cancelled)] \<and>
          resolutions (receive_response i r d) = resolutions d @ [(i, Responded r)] \<and>
          waiting (timeout_elapses i d) i = None \<and>
          waiting (cancel i d) i = None \<and>
          waiting (receive_response i r d) i = None) \<and>
       (waiting d i = None \<longrightarrow>
          resolutions (timeout_elapses i d) = resolutions d \<and>
          resolutions (cancel i d) = resolutions d \<and>
          resolutions (receive_response i r d) = resolutions d))"
proof -
  let ?d = "run_events es"
  have s: "settled ?d i" by (rule settled_run)
  have le: "resolved_count ?d i \<le> 1"
    using s by (auto simp: settled_def split: if_splits)
  have z: "resolved_count ?d i = 0" if "waiting ?d i \<noteq> None"
    using s that by (auto simp: settled_def split: if_splits)
  have o: "resolved_count ?d i = 1" if "i < next_id ?d" "waiting ?d i = None"
    using s that by (auto simp: settled_def split: if_splits)
  show ?thesis
    unfolding Let_def using le z o
    by (auto simp: timeout_elapses_def cancel_def receive_response_def)
qed

lemma demo_events:
  "run_events [Send ''textDocument/hover'', TimeoutElapses 0] =
     \<lparr>alive = True, next_id = 1, waiting = Map.empty, resolutions = [(0, Timeout)],
      written = [RequestMsg 0 ''textDocument/hover''], diagnostics = []\<rparr>"
  by (simp add: run_events_def new_dispatcher_def send_request_def timeout_elapses_def Let_def)

lemma demo_pending:
  "waiting (run_events [Send ''textDocument/hover'']) 0 = Some ''textDocument/hover''"
  by (simp add: run_events_def new_dispatcher_def send_request_def Let_def)

theorem dispatcher_resolves_each_id_once_witness:
  "waiting (run_events [Send ''textDocument/hover'']) 0 \<noteq> None \<and>
   waiting (run_events [Send ''textDocument/hover'', TimeoutElapses 0]) 0 = None \<and>
   resolutions (timeout_elapses 0 (run_events [Send ''textDocument/hover''])) = [(0, Timeout)] \<and>
   resolutions (receive_response 0 ''late''
      (run_events [Send ''textDocument/hover'', TimeoutElapses 0])) = [(0, Timeout)] \<and>
   resolutions (cancel 0 (run_events [Send ''textDocument/hover'', TimeoutElapses 0]))
     = [(0, Timeout)] \<and>
   resolved_count (run_events [Send ''textDocument/hover'', TimeoutElapses 0]) 0 \<le> 1"
proof -
  note a = dispatcher_resolves_each_id_once[of "[Send ''textDocument/hover'']" 0 "''late''",
      unfolded Let_def]
  note b = dispatcher_resolves_each_id_once[of "[Send ''textDocument/hover'', TimeoutElapses 0]"
      0 "''late''", unfolded Let_def]
  have p: "waiting (run_events [Send ''textDocument/hover'']) 0 \<noteq> None"
    by (simp add: demo_pending)
  have q: "waiting (run_events [Send ''textDocument/hover'', TimeoutElapses 0]) 0 = None"
    by (simp add: demo_events)
  have r0: "resolutions (run_events [Send ''textDocument/hover'']) = []"
    by (simp add: run_events_def new_dispatcher_def send_request_def Let_def)
  have r1: "resolutions (run_events [Send ''textDocument/hover'', TimeoutElapses 0]) = [(0, Timeout)]"
    by (simp add: demo_events)
  have "resolutions (timeout_elapses 0 (run_events [Send ''textDocument/hover'']))
          = resolutions (run_events [Send ''textDocument/hover'']) @ [(0, Timeout)]"
    using a p by blast
  moreover have "resolutions (receive_response 0 ''late''
      (run_events [Send ''textDocument/hover'', TimeoutElapses 0]))
        = resolutions (run_events [Send ''textDocument/hover'', TimeoutElapses 0])"
    using b q by blast
  moreover have "resolutions (cancel 0 (run_events [Send ''textDocument/hover'', TimeoutElapses 0]))
        = resolutions (run_events [Send ''textDocument/hover'', TimeoutElapses 0])"
    using b q by blast
  moreover have "resolved_count (run_events [Send ''textDocument/hover'', TimeoutElapses 0]) 0 \<le> 1"
    using b by blast
  ultimately show ?thesis
    using p q by (simp add: r0 r1)
qed

section \<open>The lifetime of the pending dictionary\<close>

lemma window_destroy_frame [simp]:
  "to_be_processed (window_destroy_output_panel window name s) = to_be_processed s"
  "timeouts (window_destroy_output_panel window name s) = timeouts s"
  by (simp_all add: window_destroy_output_panel_def split: option.splits)

lemma settings_set_tbp: "to_be_processed (settings_set vid k x s) = to_be_processed s"
  by (simp add: settings_set_def update_view_def split: option.splits)

lemma destroy_fold_frame:
  "to_be_processed
     (fold (\<lambda>field s.
             case map_of PanelName field of
               None \<Rightarrow> s
             | Some panel_name \<Rightarrow>
                 (let panel = window_find_output_panel s window panel_name
                  in if truthy panel \<and> view_is_valid s (the panel)
                     then window_destroy_output_panel window panel_name
                            (settings_set (the panel) ''syntax''
                               (SStr ''Packages/Text/Plain text.tmLanguage'') s)
                     else s)) keys s) = to_be_processed s"
  by (induction keys arbitrary: s) (simp_all add: Let_def settings_set_tbp split: option.splits)

lemma destroy_output_panels_frame:
  "to_be_processed (destroy_output_panels window s) = to_be_processed s"
  unfolding destroy_output_panels_def by (rule destroy_fold_frame)

lemma demo_destroyed_view: "views (destroy_output_panels 2 demo_queued) 7 = None"
  by (simp add: destroy_output_panels_def PanelName_dict_keys_def PanelName_def
      window_find_output_panel_def demo_queued_def demo_env_def view_is_valid_def Let_def
      window_destroy_output_panel_def settings_set_def update_view_def)

lemma update_server_panel_other:
  assumes "k \<noteq> window"
  shows "to_be_processed (update_server_panel window prefix message s) k = to_be_processed s k"
proof (cases "window_is_valid s window")
  case False
  then show ?thesis by (simp add: update_server_panel_def)
next
  case True
  obtain panel s1 where e: "ensure_server_panel window s = (panel, s1)"
    by (cases "ensure_server_panel window s")
  show ?thesis
  proof (cases "truthy panel")
    case t: True
    show ?thesis
      unfolding update_server_panel_eq[OF True e t] using assms by simp
  next
    case False
    then have "update_server_panel window prefix message s = s1"
      using True e by (simp add: update_server_panel_def)
    then show ?thesis using ensure_server_panel_frame[OF e] by simp
  qed
qed

lemma run_pops_only_its_key:
  assumes "LspUpdateServerPanelCommand_run v window_id tbp = Inr (v', tbp')"
  shows "tbp' = tbp(window_id := None)"
proof (cases "tbp window_id")
  case None
  then show ?thesis using assms by (simp add: run_missing_key)
next
  case (Some q)
  show ?thesis
  proof (cases q)
    case Nil
    then show ?thesis using assms Some by (simp add: run_empty_queue)
  next
    case (Cons m ms)
    then show ?thesis
      using assms Some run_nonempty_queue[of tbp window_id m ms v] by simp
  qed
qed

text \<open>
  Claim C10 says that the table of pending server-panel messages has an owned lifecycle,
  with a teardown that releases its contents. It has none: the dictionary is a class
  attribute, bound once to the empty dictionary, and below the queue of window 2 is still
  in it after the panels of the window have been destroyed; the panel's view is gone, so
  the scheduled flush does not release the queue either.
\<close>

theorem pending_table_outlives_its_panel:
  "to_be_processed_initial 2 = None \<and>
   to_be_processed demo_queued 2 = Some [(''server'', ''started'')] \<and>
   to_be_processed (destroy_output_panels 2 demo_queued) 2 = Some [(''server'', ''started'')] \<and>
   \<not> view_is_valid (destroy_output_panels 2 demo_queued) 7 \<and>
   \<not> condition demo_job (destroy_output_panels 2 demo_queued) \<and>
   timeout_expires demo_job (destroy_output_panels 2 demo_queued)
     = Inr (destroy_output_panels 2 demo_queued)"
proof -
  have q: "to_be_processed demo_queued 2 = Some [(''server'', ''started'')]"
    by (simp add: demo_queued_def)
  have v: "\<not> view_is_valid (destroy_output_panels 2 demo_queued) 7"
    by (simp add: view_is_valid_def demo_destroyed_view)
  have c: "\<not> condition demo_job (destroy_output_panels 2 demo_queued)"
    using v by (simp add: condition_iff demo_job_def)
  show ?thesis
    using q v c
    by (simp add: destroy_output_panels_frame timeout_expires_def to_be_processed_initial_def)
qed

text \<open>
  Claim C10, amended. The table of pending server-panel messages is class-level state
  without init or teardown: it starts empty, \<open>destroy_output_panels\<close> leaves it as it is,
  \<open>update_server_panel\<close> changes the entry of its own window only, and a run of the command
  that returns has removed the entry of its \<open>window_id\<close> and changed nothing else.
\<close>

theorem pending_table_is_class_level_state:
  "to_be_processed_initial k = None \<and>
   to_be_processed (destroy_output_panels window s) = to_be_processed s \<and>
   (k \<noteq> window \<longrightarrow>
      to_be_processed (update_server_panel window prefix message s) k = to_be_processed s k) \<and>
   (LspUpdateServerPanelCommand_run v window_id tbp = Inr (v', tbp') \<longrightarrow>
      tbp' = tbp(window_id := None))"
  using update_server_panel_other[of k window prefix message s]
    run_pops_only_its_key[of v window_id tbp v' tbp']
  by (simp add: to_be_processed_initial_def destroy_output_panels_frame)

theorem pending_table_is_class_level_state_witness:
  "(3::nat) \<noteq> 2 \<and>
   to_be_processed (update_server_panel 2 ''server'' ''started'' demo_env) 3
     = to_be_processed demo_env 3 \<and>
   to_be_processed (destroy_output_panels 2 demo_queued) = to_be_processed demo_queued \<and>
   (\<exists>v' tbp'. LspUpdateServerPanelCommand_run demo_view 2 (to_be_processed demo_queued)
        = Inr (v', tbp') \<and> tbp' = (to_be_processed demo_queued)(2 := None))"
proof -
  have q: "to_be_processed demo_queued 2 = Some ((''server'', ''started'') # [])"
    by (simp add: demo_queued_def)
  obtain v' tbp' where r: "LspUpdateServerPanelCommand_run demo_view 2 (to_be_processed demo_queued)
        = Inr (v', tbp')"
    using run_nonempty_queue[of "to_be_processed demo_queued" 2 "(''server'', ''started'')" "[]"
        demo_view, OF q] by blast
  note a = pending_table_is_class_level_state[of 3 2 demo_env "''server''" "''started''"
      demo_view 2 "to_be_processed demo_queued" v' tbp']
  note b = pending_table_is_class_level_state[of 3 2 demo_queued "''server''" "''started''"
      demo_view 2 "to_be_processed demo_queued" v' tbp']
  have n: "(3::nat) \<noteq> 2" by simp
  have 1: "to_be_processed (update_server_panel 2 ''server'' ''started'' demo_env) 3
     = to_be_processed demo_env 3"
    using a n by blast
  have 2: "to_be_processed (destroy_output_panels 2 demo_queued) = to_be_processed demo_queued"
    using b by blast
  have 3: "tbp' = (to_be_processed demo_queued)(2 := None)"
    using a r by blast
  show ?thesis
    using n 1 2 r 3 by blast
qed

end
